theory Spec2Isabelle
  imports Main "HOL-Library.Multiset"
begin

section \<open>Python string operations used by music.py\<close>

text \<open>
  Strings are lists of 8-bit characters. The whitespace characters are the ones
  \<^verbatim>\<open>str.isspace\<close> accepts below code point 256.
\<close>

definition py_isspace :: "char \<Rightarrow> bool" where
  "py_isspace c =
     ((of_char c :: nat) \<in> {9, 10, 11, 12, 13, 28, 29, 30, 31, 32, 133, 160})"

text \<open>\<^verbatim>\<open>s.strip()\<close>: whitespace removed at both ends.\<close>

definition py_strip :: "string \<Rightarrow> string" where
  "py_strip s = rev (dropWhile py_isspace (rev (dropWhile py_isspace s)))"

text \<open>\<^verbatim>\<open>s.split(c)\<close> for a separator of one character: always at least one piece.\<close>

fun py_split :: "char \<Rightarrow> string \<Rightarrow> string list" where
  "py_split c [] = [[]]"
| "py_split c (x # xs) =
     (if x = c then [] # py_split c xs
      else (case py_split c xs of
              [] \<Rightarrow> [[x]]
            | p # ps \<Rightarrow> (x # p) # ps))"

definition py_startswith :: "string \<Rightarrow> string \<Rightarrow> bool" where
  "py_startswith pre s = (take (length pre) s = pre)"

definition py_endswith :: "string \<Rightarrow> string \<Rightarrow> bool" where
  "py_endswith suf s =
     (length suf \<le> length s \<and> drop (length s - length suf) s = suf)"

text \<open>\<^verbatim>\<open>sub in s\<close> for strings: \<open>sub\<close> occurs as a contiguous run of \<open>s\<close>.\<close>

primrec py_in :: "string \<Rightarrow> string \<Rightarrow> bool" where
  "py_in sub [] = (sub = [])"
| "py_in sub (c # cs) = (py_startswith sub (c # cs) \<or> py_in sub cs)"

text \<open>
  \<^verbatim>\<open>s.replace(old, new)\<close>: the occurrences of \<open>old\<close> are replaced from the left,
  without overlap. With an empty \<open>old\<close> Python puts \<open>new\<close> before every character
  and at the end.
\<close>

function py_replace :: "string \<Rightarrow> string \<Rightarrow> string \<Rightarrow> string" where
  "py_replace old new s =
     (if old = [] then new @ concat (map (\<lambda>c. c # new) s)
      else if py_startswith old s then new @ py_replace old new (drop (length old) s)
      else (case s of
              [] \<Rightarrow> []
            | c # cs \<Rightarrow> c # py_replace old new cs))"
  by pat_completeness auto
termination
proof (relation "measure (\<lambda>(old, new, s). length s)")
  show "wf (measure (\<lambda>(old, new, s). length s))"
    by simp
next
  fix old new s :: string
  assume "old \<noteq> []" and "py_startswith old s"
  then have "s \<noteq> []"
    by (auto simp: py_startswith_def)
  with \<open>old \<noteq> []\<close>
  show "((old, new, drop (length old) s), (old, new, s))
          \<in> measure (\<lambda>(old, new, s). length s)"
    by simp
next
  fix old new s :: string and c cs
  assume "s = c # cs"
  then show "((old, new, cs), (old, new, s)) \<in> measure (\<lambda>(old, new, s). length s)"
    by simp
qed

section \<open>Notes and chords: the tables\<close>

text \<open>The chromatic table \<^verbatim>\<open>notes\<close> of the source.\<close>

definition notes_table :: "string list" where
  "notes_table = [''C'', ''C#/Db'', ''D'', ''D#/Eb'', ''E'', ''F'', ''F#/Gb'',
                  ''G'', ''G#/Ab'', ''A'', ''A#/Bb'', ''B'']"

definition accidental_map :: "string \<rightharpoonup> string" where
  "accidental_map = map_of
     [(''C#'', ''Db''), (''Db'', ''C#''),
      (''D#'', ''Eb''), (''Eb'', ''D#''),
      (''F#'', ''Gb''), (''Gb'', ''F#''),
      (''G#'', ''Ab''), (''Ab'', ''G#''),
      (''A#'', ''Bb''), (''Bb'', ''A#'')]"

text \<open>The major triad of every root the program knows.\<close>

definition chord :: "string \<rightharpoonup> string list" where
  "chord = map_of
     [(''A'', [''A'', ''C#'', ''E'']),
      (''A#'', [''A#'', ''D'', ''F'']),
      (''Bb'', [''Bb'', ''D'', ''F'']),
      (''B'', [''B'', ''D#'', ''F#'']),
      (''C'', [''C'', ''E'', ''G'']),
      (''C#'', [''C#'', ''F'', ''G#'']),
      (''Db'', [''Db'', ''F'', ''Ab'']),
      (''D'', [''D'', ''F#'', ''A'']),
      (''D#'', [''D#'', ''G'', ''A#'']),
      (''Eb'', [''Eb'', ''G'', ''Bb'']),
      (''E'', [''E'', ''G#'', ''B'']),
      (''F'', [''F'', ''A'', ''C'']),
      (''F#'', [''F#'', ''A#'', ''C#'']),
      (''Gb'', [''Gb'', ''Bb'', ''Db'']),
      (''G'', [''G'', ''B'', ''D'']),
      (''G#'', [''G#'', ''C'', ''D#'']),
      (''Ab'', [''Ab'', ''C'', ''Eb''])]"

definition enharmonic :: "string \<rightharpoonup> string" where
  "enharmonic = map_of
     [(''Bb'', ''A#''), (''A#'', ''Bb''),
      (''Db'', ''C#''), (''C#'', ''Db''),
      (''Eb'', ''D#''), (''D#'', ''Eb''),
      (''E#'', ''F''), (''F'', ''E#''),
      (''Gb'', ''F#''), (''F#'', ''Gb''),
      (''Ab'', ''G#''), (''G#'', ''Ab'')]"

section \<open>Exceptions and printed lines\<close>

text \<open>
  The Python exceptions the modelled functions can raise; \<open>Music21Exception\<close> stands
  for any exception raised inside the music21 library.
\<close>

datatype error = ValueError | IndexError | KeyError | Music21Exception

text \<open>
  What the functions print, one constructor for each \<^verbatim>\<open>print\<close> call of the source
  (with the values it formats), and one for \<^verbatim>\<open>traceback.print_exc()\<close>.
\<close>

datatype msg =
    Error_lowering string error
  | Error_raising string error
  | Unknown_seventh_type string
  | Problem_creating_seventh
  | Traceback error
  | Bass_not_found string "string list"
  | Parsed string string bool bool "string option" "string option"
  | Root_not_found string
  | Using_instead string
  | Cant_find string
  | Base_chord string "string list"
  | After_diminished "string list"
  | After_minor "string list"
  | After_adding string "string list"
  | After_inversion string "string list"
  | Final_chord "string list"
  | Problem_with string error

section \<open>Chord functions\<close>

text \<open>
  \<^verbatim>\<open>get_note_index\<close>: the loop over \<^verbatim>\<open>enumerate(notes)\<close>, returning the first
  position whose spellings contain the note; ValueError when none does.
\<close>

fun get_note_index_from :: "nat \<Rightarrow> string list \<Rightarrow> string \<Rightarrow> error + nat" where
  "get_note_index_from i [] note = Inl ValueError"
| "get_note_index_from i (note_options # rest) note =
     (if note \<in> set (py_split CHR ''/'' note_options) then Inr i
      else get_note_index_from (Suc i) rest note)"

definition get_note_index :: "string \<Rightarrow> error + nat" where
  "get_note_index note = get_note_index_from 0 notes_table note"

text \<open>
  The first spelling of the table entry at a position. The position is always the
  result of a \<^verbatim>\<open>% len(notes)\<close>, hence in range, and a split has a first piece.
\<close>

definition first_spelling :: "nat \<Rightarrow> string" where
  "first_spelling new_idx = hd (py_split CHR ''/'' (notes_table ! new_idx))"

text \<open>
  \<^verbatim>\<open>lower_note_by_semitone\<close> and \<^verbatim>\<open>raise_note_by_semitone\<close>: the exception of the
  lookup is caught, a line is printed and the note comes back unchanged.
\<close>

definition lower_note_by_semitone :: "string \<Rightarrow> msg list \<times> string" where
  "lower_note_by_semitone note =
     (case get_note_index note of
        Inl e \<Rightarrow> ([Error_lowering note e], note)
      | Inr idx \<Rightarrow>
          ([], first_spelling (nat ((int idx - 1) mod int (length notes_table)))))"

definition raise_note_by_semitone :: "string \<Rightarrow> msg list \<times> string" where
  "raise_note_by_semitone note =
     (case get_note_index note of
        Inl e \<Rightarrow> ([Error_raising note e], note)
      | Inr idx \<Rightarrow>
          ([], first_spelling (nat ((int idx + 1) mod int (length notes_table)))))"

text \<open>
  \<^verbatim>\<open>make_minor_chord\<close>: the third (position 1) is lowered in a copy of the list.
  Reading position 1 of a shorter list raises IndexError.
\<close>

definition make_minor_chord :: "string list \<Rightarrow> msg list \<times> (error + string list)" where
  "make_minor_chord chord_notes =
     (if length chord_notes \<le> 1 then ([], Inl IndexError)
      else (case lower_note_by_semitone (chord_notes ! 1) of
              (out, third) \<Rightarrow> (out, Inr (chord_notes[1 := third]))))"

text \<open>
  \<^verbatim>\<open>make_diminished_chord\<close>: third and fifth are lowered, in this order; the lines
  printed before an IndexError stay printed.
\<close>

definition make_diminished_chord :: "string list \<Rightarrow> msg list \<times> (error + string list)" where
  "make_diminished_chord chord_notes =
     (if length chord_notes \<le> 1 then ([], Inl IndexError)
      else (case lower_note_by_semitone (chord_notes ! 1) of
              (out1, third) \<Rightarrow>
                (if length chord_notes \<le> 2 then (out1, Inl IndexError)
                 else (case lower_note_by_semitone (chord_notes ! 2) of
                         (out2, fifth) \<Rightarrow>
                           (out1 @ out2, Inr (chord_notes[1 := third, 2 := fifth]))))))"

text \<open>The table local to \<^verbatim>\<open>make_seventh_chord\<close>: semitones from the root.\<close>

definition seventh_intervals :: "string \<rightharpoonup> nat" where
  "seventh_intervals = map_of
     [(''maj7'', 11), (''7'', 10), (''m7'', 10), (''dim7'', 9), (''aug7'', 10)]"

text \<open>The loop \<^verbatim>\<open>for _ in range(interval): current_note = raise_note_by_semitone(current_note)\<close>.\<close>

fun raise_loop :: "nat \<Rightarrow> string \<Rightarrow> msg list \<times> string" where
  "raise_loop 0 current_note = ([], current_note)"
| "raise_loop (Suc n) current_note =
     (case raise_note_by_semitone current_note of
        (out1, next_note) \<Rightarrow>
          (case raise_loop n next_note of
             (out2, last_note) \<Rightarrow> (out1 @ out2, last_note)))"

text \<open>
  \<^verbatim>\<open>make_seventh_chord\<close>: every exception is caught by the bare \<^verbatim>\<open>except\<close>, which
  prints and returns the chord it was given. The only raise in the body is the read of
  \<^verbatim>\<open>chord_notes[0]\<close> on an empty list. \<^verbatim>\<open>not interval\<close> holds for a missing key
  and for 0.
\<close>

definition make_seventh_chord :: "string list \<Rightarrow> string \<Rightarrow> msg list \<times> string list" where
  "make_seventh_chord chord_notes chord_type =
     (case chord_notes of
        [] \<Rightarrow> ([Problem_creating_seventh, Traceback IndexError], chord_notes)
      | root # _ \<Rightarrow>
          (case seventh_intervals chord_type of
             None \<Rightarrow> ([Unknown_seventh_type chord_type], chord_notes)
           | Some interval \<Rightarrow>
               (if interval = 0 then ([Unknown_seventh_type chord_type], chord_notes)
                else (case raise_loop interval root of
                        (out, current_note) \<Rightarrow>
                          (out,
                           chord_notes @
                             [if chord_type = ''dim7'' \<and> CHR ''b'' \<notin> set current_note
                                 \<and> CHR ''#'' \<in> set current_note
                              then (case accidental_map current_note of
                                      None \<Rightarrow> current_note
                                    | Some flat \<Rightarrow> flat)
                              else current_note])))))"

text \<open>
  The loop of \<^verbatim>\<open>inversion_by_bass_note\<close>:
  \<^verbatim>\<open>while result[0] != bass_note: result.append(result.pop(0))\<close>.
  It does not return when the bass note is not in a non-empty list, so it is a partial
  function: \<open>None\<close> is "does not return". Reading \<^verbatim>\<open>result[0]\<close> of an empty
  list raises IndexError. The first argument is not in the source: it counts the
  executions of the loop body, and nothing is decided from it.
\<close>

partial_function (option) rotate_loop ::
  "nat \<Rightarrow> string list \<Rightarrow> string \<Rightarrow> (error + nat \<times> string list) option" where
  "rotate_loop steps result bass_note =
     (case result of
        [] \<Rightarrow> Some (Inl IndexError)
      | front # rest \<Rightarrow>
          (if front \<noteq> bass_note then rotate_loop (Suc steps) (rest @ [front]) bass_note
           else Some (Inr (steps, result))))"

declare rotate_loop.simps [code]

text \<open>
  \<^verbatim>\<open>inversion_by_bass_note\<close>, with the number of executions of the loop body next to
  the list it returns. \<^verbatim>\<open>not bass_note\<close> holds for \<^verbatim>\<open>None\<close> and for the empty
  string; both are the empty string here.
\<close>

definition inversion_run ::
  "string list \<Rightarrow> string \<Rightarrow> (msg list \<times> (error + nat \<times> string list)) option" where
  "inversion_run chord_notes bass_note =
     (if bass_note = [] then Some ([], Inr (0, chord_notes))
      else (case (case enharmonic bass_note of
                    None \<Rightarrow> (if bass_note \<notin> set chord_notes then None else Some bass_note)
                  | Some other \<Rightarrow>
                      (if other \<in> set chord_notes then Some other
                       else if bass_note \<notin> set chord_notes then None
                       else Some bass_note)) of
              None \<Rightarrow> Some ([Bass_not_found bass_note chord_notes], Inr (0, chord_notes))
            | Some bass_note' \<Rightarrow>
                (case rotate_loop 0 chord_notes bass_note' of
                   None \<Rightarrow> None
                 | Some r \<Rightarrow> Some ([], r))))"

text \<open>What the source function returns: the list, without the count.\<close>

definition inversion_by_bass_note ::
  "string list \<Rightarrow> string \<Rightarrow> (msg list \<times> (error + string list)) option" where
  "inversion_by_bass_note chord_notes bass_note =
     (case inversion_run chord_notes bass_note of
        None \<Rightarrow> None
      | Some (out, Inl e) \<Rightarrow> Some (out, Inl e)
      | Some (out, Inr (steps, result)) \<Rightarrow> Some (out, Inr result))"

section \<open>Chord string parsing\<close>

text \<open>
  \<^verbatim>\<open>parse_chord_string\<close> returns the tuple
  \<^verbatim>\<open>(root, is_minor, is_dim, seventh, bass)\<close>. The assignment
  \<^verbatim>\<open>chord_part, bass = chord_string.split('/')\<close> raises ValueError unless the split
  has exactly two pieces. The line printed at the end shows the chord string as
  reassigned after the split.
\<close>

type_synonym descriptor = "string \<times> bool \<times> bool \<times> string option \<times> string option"

definition parse_chord_string :: "string \<Rightarrow> msg list \<times> (error + descriptor)" where
  "parse_chord_string chord_string0 =
     (case (if CHR ''/'' \<in> set chord_string0
            then (case py_split CHR ''/'' chord_string0 of
                    [chord_part, bass_part] \<Rightarrow>
                      Inr (py_strip chord_part, Some (py_strip bass_part))
                  | _ \<Rightarrow> Inl ValueError)
            else Inr (chord_string0, None)) of
        Inl e \<Rightarrow> ([], Inl e)
      | Inr (chord_string, bass0) \<Rightarrow>
          (case (if py_in ''dim7'' chord_string
                 then (py_replace ''dim7'' [] chord_string, False, True, Some ''dim7'')
                 else if py_in ''dim'' chord_string
                 then (py_replace ''dim'' [] chord_string, False, True, None)
                 else if py_in ''m'' chord_string \<and> \<not> py_endswith ''maj7'' chord_string
                 then (if py_endswith ''m7'' chord_string
                       then (take (length chord_string - 2) chord_string,
                             True, False, Some ''m7'')
                       else if py_endswith ''m'' chord_string
                       then (take (length chord_string - 1) chord_string,
                             True, False, None)
                       else (chord_string, True, False, None))
                 else if py_endswith ''maj7'' chord_string
                 then (take (length chord_string - 4) chord_string,
                       False, False, Some ''maj7'')
                 else if py_endswith ''7'' chord_string
                 then (take (length chord_string - 1) chord_string,
                       False, False, Some ''7'')
                 else (chord_string, False, False, None)) of
             (root0, is_minor, is_dim, seventh) \<Rightarrow>
               (let root = py_strip root0;
                    bass =
                      (case bass0 of
                         None \<Rightarrow> None
                       | Some b \<Rightarrow>
                           (if b \<noteq> [] \<and> CHR ''#'' \<in> set b
                            then (case enharmonic b of
                                    None \<Rightarrow> Some b
                                  | Some other \<Rightarrow>
                                      (if CHR ''b'' \<in> set other then Some other
                                       else Some b))
                            else Some b))
                in ([Parsed chord_string root is_minor is_dim seventh bass],
                    Inr (root, is_minor, is_dim, seventh, bass)))))"

text \<open>
  The body of the \<^verbatim>\<open>try\<close> of \<^verbatim>\<open>get_chord_from_string\<close> has four blocks after
  the call of the parser, each under a comment of the source; they are written here
  one by one, each with the lines it prints.

  "Check for valid root": the root itself when it is a key of the triad table, else
  its enharmonic equivalent when that is a key, else nothing (\<^verbatim>\<open>return None\<close>).
\<close>

definition check_root :: "string \<Rightarrow> string \<Rightarrow> msg list \<times> string option" where
  "check_root chord_string root =
     (if chord root \<noteq> None then ([], Some root)
      else (case enharmonic root of
              None \<Rightarrow> ([Root_not_found root, Cant_find chord_string], None)
            | Some other \<Rightarrow>
                (if chord other \<noteq> None
                 then ([Root_not_found root, Using_instead other], Some other)
                 else ([Root_not_found root, Cant_find chord_string], None))))"

text \<open>"Apply modifications in order": diminished before minor.\<close>

definition apply_quality ::
  "bool \<Rightarrow> bool \<Rightarrow> string list \<Rightarrow> msg list \<times> (error + string list)" where
  "apply_quality is_dim is_minor triad =
     (if is_dim
      then (case make_diminished_chord triad of
              (p, Inl e) \<Rightarrow> (p, Inl e)
            | (p, Inr ns) \<Rightarrow> (p @ [After_diminished ns], Inr ns))
      else if is_minor
      then (case make_minor_chord triad of
              (p, Inl e) \<Rightarrow> (p, Inl e)
            | (p, Inr ns) \<Rightarrow> (p @ [After_minor ns], Inr ns))
      else ([], Inr triad))"

text \<open>"Add seventh if needed": \<^verbatim>\<open>if seventh\<close> holds for a non-empty string.\<close>

definition add_seventh :: "string option \<Rightarrow> string list \<Rightarrow> msg list \<times> string list" where
  "add_seventh seventh chord_notes =
     (case seventh of
        None \<Rightarrow> ([], chord_notes)
      | Some ty \<Rightarrow>
          (if ty = [] then ([], chord_notes)
           else (case make_seventh_chord chord_notes ty of
                   (p, ns) \<Rightarrow> (p @ [After_adding ty ns], ns))))"

text \<open>"Handle inversion if needed": \<^verbatim>\<open>if bass\<close> holds for a non-empty string.\<close>

definition handle_inversion ::
  "string option \<Rightarrow> string list \<Rightarrow> (msg list \<times> (error + string list)) option" where
  "handle_inversion bass chord_notes =
     (case bass of
        None \<Rightarrow> Some ([], Inr chord_notes)
      | Some b \<Rightarrow>
          (if b = [] then Some ([], Inr chord_notes)
           else (case inversion_by_bass_note chord_notes b of
                   None \<Rightarrow> None
                 | Some (p, Inl e) \<Rightarrow> Some (p, Inl e)
                 | Some (p, Inr ns) \<Rightarrow> Some (p @ [After_inversion b ns], Inr ns))))"

text \<open>
  The body of the \<^verbatim>\<open>try\<close>. The result is \<open>Inr None\<close> for \<^verbatim>\<open>return None\<close>
  (root not found) and \<open>Inr (Some notes)\<close> for the chord; an exception leaves the
  body with the lines printed so far. The read \<^verbatim>\<open>chord[root]\<close> comes after the
  check, so its KeyError cannot happen; the branch is written all the same.
\<close>

definition get_chord_try ::
  "string \<Rightarrow> (msg list \<times> (error + string list option)) option" where
  "get_chord_try chord_string =
     (case parse_chord_string chord_string of
        (out1, Inl e) \<Rightarrow> Some (out1, Inl e)
      | (out1, Inr (root0, is_minor, is_dim, seventh, bass)) \<Rightarrow>
          (case check_root chord_string root0 of
             (out2, None) \<Rightarrow> Some (out1 @ out2, Inr None)
           | (out2, Some root) \<Rightarrow>
               (case chord root of
                  None \<Rightarrow> Some (out1 @ out2, Inl KeyError)
                | Some triad \<Rightarrow>
                    (case apply_quality is_dim is_minor triad of
                       (out3, Inl e) \<Rightarrow>
                         Some (out1 @ out2 @ [Base_chord chord_string triad] @ out3, Inl e)
                     | (out3, Inr notes1) \<Rightarrow>
                         (case add_seventh seventh notes1 of
                            (out4, notes2) \<Rightarrow>
                              (case handle_inversion bass notes2 of
                                 None \<Rightarrow> None
                               | Some (out5, Inl e) \<Rightarrow>
                                   Some (out1 @ out2 @ [Base_chord chord_string triad]
                                           @ out3 @ out4 @ out5, Inl e)
                               | Some (out5, Inr notes3) \<Rightarrow>
                                   Some (out1 @ out2 @ [Base_chord chord_string triad]
                                           @ out3 @ out4 @ out5 @ [Final_chord notes3],
                                         Inr (Some notes3))))))))"

text \<open>
  \<^verbatim>\<open>get_chord_from_string\<close>: \<^verbatim>\<open>except Exception\<close> prints two lines and returns
  \<^verbatim>\<open>None\<close>. \<open>None\<close> at the outside is "does not return".
\<close>

definition get_chord_from_string :: "string \<Rightarrow> (msg list \<times> string list option) option" where
  "get_chord_from_string chord_string =
     (case get_chord_try chord_string of
        None \<Rightarrow> None
      | Some (out, Inl e) \<Rightarrow>
          Some (out @ [Problem_with chord_string e, Traceback e], None)
      | Some (out, Inr r) \<Rightarrow> Some (out, r))"

section \<open>MIDI creation\<close>

text \<open>
  \<^verbatim>\<open>str(octave)\<close> as the f-strings of the source format it: the decimal digits,
  after a minus sign for a negative number.
\<close>

definition digit_char :: "nat \<Rightarrow> char" where
  "digit_char d = ''0123456789'' ! d"

function str_nat :: "nat \<Rightarrow> string" where
  "str_nat n =
     (if n < 10 then [digit_char n] else str_nat (n div 10) @ [digit_char (n mod 10)])"
  by pat_completeness auto
termination
  by (relation "measure id") auto

definition py_str :: "int \<Rightarrow> string" where
  "py_str i = (if i < 0 then CHR ''-'' # str_nat (nat (- i)) else str_nat (nat i))"

text \<open>
  The music21 library is not part of the program. Its constructor
  \<^verbatim>\<open>music21.note.Note\<close> is a parameter \<open>mk\<close> of every function that calls it: a
  partial function from the string it is given to the object it returns, \<open>None\<close>
  where it raises (the library's own exceptions are the one value
  \<open>Music21Exception\<close>). Nothing is assumed about which strings it accepts. A note
  is the object returned with the \<^verbatim>\<open>quarterLength\<close> set on it, a chord is the list
  of note objects given to \<^verbatim>\<open>music21.chord.Chord\<close>, a stream is the list of the
  objects appended to it. The type of the duration is left open: it is only passed on.
\<close>

datatype ('n, 'd) m21_note = Note 'n 'd

datatype ('n, 'd) m21_chord = Chord "('n, 'd) m21_note list"

text \<open>
  The string \<^verbatim>\<open>f"{note}{octave}"\<close> that \<^verbatim>\<open>create_music21_chord\<close> gives to the
  constructor: the note, respelled when its entry in the accidental table has a
  \<^verbatim>\<open>b\<close>, then the octave.
\<close>

definition chord_note_text :: "string \<Rightarrow> int \<Rightarrow> string" where
  "chord_note_text note octave =
     (case accidental_map note of
        None \<Rightarrow> note
      | Some other \<Rightarrow> (if CHR ''b'' \<in> set other then other else note)) @ py_str octave"

text \<open>
  The loop of \<^verbatim>\<open>create_music21_chord\<close> over the chord notes, with the list of note
  objects built so far. An exception of the constructor leaves the loop and the
  function: the source has no handler around it.
\<close>

fun m21_notes_loop ::
  "(string \<Rightarrow> 'n option) \<Rightarrow> string list \<Rightarrow> int \<Rightarrow> 'd \<Rightarrow> ('n, 'd) m21_note list
     \<Rightarrow> error + ('n, 'd) m21_note list" where
  "m21_notes_loop mk [] octave duration m21_notes = Inr m21_notes"
| "m21_notes_loop mk (note # rest) octave duration m21_notes =
     (case mk (chord_note_text note octave) of
        None \<Rightarrow> Inl Music21Exception
      | Some m21_note \<Rightarrow>
          m21_notes_loop mk rest octave duration (m21_notes @ [Note m21_note duration]))"

definition create_music21_chord ::
  "(string \<Rightarrow> 'n option) \<Rightarrow> string list \<Rightarrow> int \<Rightarrow> 'd
     \<Rightarrow> error + ('n, 'd) m21_chord option" where
  "create_music21_chord mk chord_notes octave duration =
     (if chord_notes = [] then Inr None
      else (case m21_notes_loop mk chord_notes octave duration [] of
              Inl e \<Rightarrow> Inl e
            | Inr m21_notes \<Rightarrow> Inr (Some (Chord m21_notes))))"

text \<open>
  The string that \<^verbatim>\<open>create_music21_note\<close> gives to the constructor: a name with a
  \<^verbatim>\<open>#\<close> that is a key of the accidental table is replaced by its entry.
\<close>

definition bass_note_text :: "string \<Rightarrow> int \<Rightarrow> string" where
  "bass_note_text note_name octave =
     (if CHR ''#'' \<in> set note_name
      then (case accidental_map note_name of
              None \<Rightarrow> note_name
            | Some other \<Rightarrow> other)
      else note_name) @ py_str octave"

definition create_music21_note ::
  "(string \<Rightarrow> 'n option) \<Rightarrow> string \<Rightarrow> int \<Rightarrow> 'd \<Rightarrow> error + ('n, 'd) m21_note" where
  "create_music21_note mk note_name octave duration =
     (case mk (bass_note_text note_name octave) of
        None \<Rightarrow> Inl Music21Exception
      | Some m21_note \<Rightarrow> Inr (Note m21_note duration))"

text \<open>A progression or a bass line is given as one string or as a list of names.\<close>

datatype names_arg = Text string | Names "string list"

text \<open>\<^verbatim>\<open>[c.strip() for c in text.split(',')]\<close> for a string, the list itself otherwise.\<close>

fun names_of :: "names_arg \<Rightarrow> string list" where
  "names_of (Text t) = map py_strip (py_split CHR '','' t)"
| "names_of (Names ns) = ns"

text \<open>
  The loop of \<^verbatim>\<open>create_chord_progression\<close> over the chord names, with the stream
  built so far. \<^verbatim>\<open>if chord_notes\<close> holds for a non-empty list; a chord object is
  appended when \<^verbatim>\<open>create_music21_chord\<close> made one. The call of
  \<^verbatim>\<open>create_music21_chord\<close> is outside the \<^verbatim>\<open>try\<close> of \<^verbatim>\<open>get_chord_from_string\<close>:
  an exception of the library ends the loop, with the lines printed so far.
\<close>

fun chord_loop ::
  "(string \<Rightarrow> 'n option) \<Rightarrow> string list \<Rightarrow> int \<Rightarrow> 'd \<Rightarrow> ('n, 'd) m21_chord list
     \<Rightarrow> (msg list \<times> (error + ('n, 'd) m21_chord list)) option" where
  "chord_loop mk [] octave duration stream = Some ([], Inr stream)"
| "chord_loop mk (chord_name # rest) octave duration stream =
     (case get_chord_from_string chord_name of
        None \<Rightarrow> None
      | Some (out1, chord_notes) \<Rightarrow>
          (case (case chord_notes of
                   None \<Rightarrow> Inr stream
                 | Some ns \<Rightarrow>
                     (if ns = [] then Inr stream
                      else (case create_music21_chord mk ns octave duration of
                              Inl e \<Rightarrow> Inl e
                            | Inr None \<Rightarrow> Inr stream
                            | Inr (Some chord_obj) \<Rightarrow> Inr (stream @ [chord_obj])))) of
             Inl e \<Rightarrow> Some (out1, Inl e)
           | Inr stream' \<Rightarrow>
               (case chord_loop mk rest octave duration stream' of
                  None \<Rightarrow> None
                | Some (out2, final) \<Rightarrow> Some (out1 @ out2, final))))"

definition create_chord_progression ::
  "(string \<Rightarrow> 'n option) \<Rightarrow> names_arg \<Rightarrow> int \<Rightarrow> 'd
     \<Rightarrow> (msg list \<times> (error + ('n, 'd) m21_chord list)) option" where
  "create_chord_progression mk progression octave duration =
     chord_loop mk (names_of progression) octave duration []"

text \<open>
  The loop of \<^verbatim>\<open>create_bass_line\<close> over the bass names, with the stream built so
  far; an exception of the library ends it.
\<close>

fun bass_loop ::
  "(string \<Rightarrow> 'n option) \<Rightarrow> string list \<Rightarrow> int \<Rightarrow> 'd \<Rightarrow> ('n, 'd) m21_note list
     \<Rightarrow> error + ('n, 'd) m21_note list" where
  "bass_loop mk [] octave duration stream = Inr stream"
| "bass_loop mk (note_name # rest) octave duration stream =
     (case create_music21_note mk note_name octave duration of
        Inl e \<Rightarrow> Inl e
      | Inr m21_note \<Rightarrow> bass_loop mk rest octave duration (stream @ [m21_note]))"

definition create_bass_line ::
  "(string \<Rightarrow> 'n option) \<Rightarrow> names_arg \<Rightarrow> int \<Rightarrow> 'd \<Rightarrow> error + ('n, 'd) m21_note list"
  where
  "create_bass_line mk bass_progression octave duration =
     bass_loop mk (names_of bass_progression) octave duration []"

section \<open>Export\<close>

text \<open>
  \<^verbatim>\<open>export_to_midi\<close> up to the file system: the result says what was handed to the
  writer (the chord stream alone, or the two parts of the score: the chords after the
  piano, the bass notes after the acoustic bass), or that the lengths of the two
  streams differ. The output path, the retry under another file name and the message
  that names the file are left out. \<^verbatim>\<open>not bass_progression\<close> holds for \<^verbatim>\<open>None\<close>,
  the empty string and the empty list. An exception of the library in either stream
  leaves the function; the bass line is built after the chord stream.
\<close>

datatype ('n, 'd) export_result =
    Saved_chords "('n, 'd) m21_chord list"
  | Length_mismatch nat nat
  | Saved_with_bass "('n, 'd) m21_chord list" "('n, 'd) m21_note list"

definition export_to_midi ::
  "(string \<Rightarrow> 'n option) \<Rightarrow> names_arg \<Rightarrow> string \<Rightarrow> names_arg option \<Rightarrow> int \<Rightarrow> int \<Rightarrow> 'd
     \<Rightarrow> (msg list \<times> (error + ('n, 'd) export_result)) option" where
  "export_to_midi mk chord_progression filename bass_progression chord_octave bass_octave
     duration =
     (case create_chord_progression mk chord_progression chord_octave duration of
        None \<Rightarrow> None
      | Some (out, Inl e) \<Rightarrow> Some (out, Inl e)
      | Some (out, Inr chord_stream) \<Rightarrow>
          (case (case bass_progression of
                   None \<Rightarrow> None
                 | Some (Text t) \<Rightarrow> (if t = [] then None else Some (Text t))
                 | Some (Names ns) \<Rightarrow> (if ns = [] then None else Some (Names ns))) of
             None \<Rightarrow> Some (out, Inr (Saved_chords chord_stream))
           | Some bass_given \<Rightarrow>
               (case create_bass_line mk bass_given bass_octave duration of
                  Inl e \<Rightarrow> Some (out, Inl e)
                | Inr bass_stream \<Rightarrow>
                    (if length chord_stream \<noteq> length bass_stream
                     then Some (out, Inr (Length_mismatch (length chord_stream)
                                            (length bass_stream)))
                     else Some (out, Inr (Saved_with_bass chord_stream bass_stream))))))"

section \<open>What the statements below refer to\<close>

text \<open>
  The chord object that one chord name contributes to the stream when the library
  raises nothing: none when no chord is built for the name, else the chord of the
  note objects the constructor returns for the notes of the chord built.
\<close>

definition built_chord ::
  "(string \<Rightarrow> 'n option) \<Rightarrow> string \<Rightarrow> int \<Rightarrow> 'd \<Rightarrow> ('n, 'd) m21_chord option" where
  "built_chord mk chord_name octave duration =
     (case get_chord_from_string chord_name of
        Some (out, Some ns) \<Rightarrow>
          (if ns = [] then None
           else Some (Chord (List.map_filter
                  (\<lambda>note. map_option (\<lambda>m21_note. Note m21_note duration)
                             (mk (chord_note_text note octave))) ns)))
      | _ \<Rightarrow> None)"

text \<open>
  A note constructor for the closed examples. It accepts a name made of a letter from A
  to G, at most one sign \<^verbatim>\<open>#\<close> or \<^verbatim>\<open>b\<close>, and an octave number in decimal digits
  without a sign, and returns the name as the object; it rejects every other string.
  The library accepts these names too (and others, which the examples do not use).
\<close>

definition plain_note :: "string \<Rightarrow> string option" where
  "plain_note s =
     (case s of
        [] \<Rightarrow> None
      | step # rest \<Rightarrow>
          (if step \<in> set ''ABCDEFG''
              \<and> (case rest of
                    [] \<Rightarrow> False
                  | sign # digits \<Rightarrow>
                      (if sign = CHR ''#'' \<or> sign = CHR ''b''
                       then digits \<noteq> [] \<and> list_all (\<lambda>c. c \<in> set ''0123456789'') digits
                       else list_all (\<lambda>c. c \<in> set ''0123456789'') rest))
           then Some s else None))"

section \<open>Theorems\<close>

subsection \<open>The enharmonic table\<close>

text \<open>
  C4 (as the specification states it, refuted): the specification says that no natural
  is a key of the enharmonic table. The table has the pair E#/F, so F is a key.
\<close>

theorem enharmonic_natural_key_counterexample:
  "enharmonic ''F'' = Some ''E#''"
  by (simp add: enharmonic_def)

text \<open>
  C4 (amended): the naturals C, D, E, G, A and B are not keys of the enharmonic table,
  so the lookup finds nothing for them; F is a key and is mapped to E#, which is mapped
  back to F.
\<close>

theorem enharmonic_naturals:
  "enharmonic ''C'' = None \<and> enharmonic ''D'' = None \<and> enharmonic ''E'' = None
   \<and> enharmonic ''G'' = None \<and> enharmonic ''A'' = None \<and> enharmonic ''B'' = None
   \<and> enharmonic ''F'' = Some ''E#'' \<and> enharmonic ''E#'' = Some ''F''"
  by (simp add: enharmonic_def)

subsection \<open>Semitone steps and sevenths\<close>

lemma below_twelve:
  "(j::nat) < 12 \<Longrightarrow> j = 0 \<or> j = Suc 0 \<or> j = 2 \<or> j = 3 \<or> j = 4 \<or> j = 5 \<or> j = 6
     \<or> j = 7 \<or> j = 8 \<or> j = 9 \<or> j = 10 \<or> j = 11"
  by arith

lemma first_spelling_values:
  "first_spelling 0 = ''C''" "first_spelling (Suc 0) = ''C#''" "first_spelling 2 = ''D''"
  "first_spelling 3 = ''D#''" "first_spelling 4 = ''E''" "first_spelling 5 = ''F''"
  "first_spelling 6 = ''F#''" "first_spelling 7 = ''G''" "first_spelling 8 = ''G#''"
  "first_spelling 9 = ''A''" "first_spelling 10 = ''A#''" "first_spelling 11 = ''B''"
  by (simp_all add: first_spelling_def notes_table_def)

lemma get_note_index_values:
  "get_note_index ''C'' = Inr 0" "get_note_index ''C#'' = Inr (Suc 0)"
  "get_note_index ''D'' = Inr 2" "get_note_index ''D#'' = Inr 3"
  "get_note_index ''E'' = Inr 4" "get_note_index ''F'' = Inr 5"
  "get_note_index ''F#'' = Inr 6" "get_note_index ''G'' = Inr 7"
  "get_note_index ''G#'' = Inr 8" "get_note_index ''A'' = Inr 9"
  "get_note_index ''A#'' = Inr 10" "get_note_index ''B'' = Inr 11"
  "get_note_index ''Db'' = Inr (Suc 0)" "get_note_index ''Eb'' = Inr 3"
  "get_note_index ''Gb'' = Inr 6" "get_note_index ''Ab'' = Inr 8"
  "get_note_index ''Bb'' = Inr 10"
  by (simp_all add: get_note_index_def notes_table_def)

lemma get_note_index_first_spelling:
  assumes "j < 12"
  shows "get_note_index (first_spelling j) = Inr j"
  using below_twelve [OF assms]
  by (elim disjE) (simp_all only: first_spelling_values get_note_index_values)

lemma get_note_index_from_bound:
  "get_note_index_from i tbl n = Inr k \<Longrightarrow> i \<le> k \<and> k < i + length tbl"
proof (induction tbl arbitrary: i)
  case Nil
  then show ?case by simp
next
  case (Cons a tbl)
  show ?case
  proof (cases "n \<in> set (py_split CHR ''/'' a)")
    case True
    with Cons.prems show ?thesis by simp
  next
    case False
    with Cons.prems have "get_note_index_from (Suc i) tbl n = Inr k" by simp
    from Cons.IH [OF this] show ?thesis by simp
  qed
qed

lemma length_notes_table: "length notes_table = 12"
  by (simp add: notes_table_def)

lemma get_note_index_bound:
  assumes "get_note_index n = Inr k"
  shows "k < 12"
proof -
  from assms have "get_note_index_from 0 notes_table n = Inr k"
    by (simp only: get_note_index_def)
  from get_note_index_from_bound [OF this] show ?thesis
    by (simp only: length_notes_table) simp
qed

lemma raise_note_by_semitone_index:
  assumes "get_note_index n = Inr i"
  shows "raise_note_by_semitone n = ([], first_spelling ((i + 1) mod 12))"
proof -
  have "nat ((int i + 1) mod int 12) = (i + 1) mod 12"
    by (simp add: nat_mod_distrib nat_add_distrib)
  with assms show ?thesis
    by (simp add: raise_note_by_semitone_def length_notes_table)
qed

lemma raise_loop_index:
  assumes "get_note_index n = Inr i"
  shows "raise_loop (Suc k) n = ([], first_spelling ((i + Suc k) mod 12))"
  using assms
proof (induction k arbitrary: n i)
  case 0
  then show ?case
    by (simp add: raise_note_by_semitone_index)
next
  case (Suc k)
  have nxt: "get_note_index (first_spelling ((i + 1) mod 12)) = Inr ((i + 1) mod 12)"
    by (rule get_note_index_first_spelling) simp
  have "raise_loop (Suc (Suc k)) n = raise_loop (Suc k) (first_spelling ((i + 1) mod 12))"
    using Suc.prems by (simp add: raise_note_by_semitone_index)
  also have "\<dots> = ([], first_spelling (((i + 1) mod 12 + Suc k) mod 12))"
    by (rule Suc.IH [OF nxt])
  also have "((i + 1) mod 12 + Suc k) mod 12 = ((i + 1) + Suc k) mod 12"
    by (rule mod_add_left_eq)
  also have "(i + 1) + Suc k = i + Suc (Suc k)"
    by simp
  finally show ?case .
qed

lemma accidental_map_values:
  "accidental_map ''C#'' = Some ''Db''" "accidental_map ''D#'' = Some ''Eb''"
  "accidental_map ''F#'' = Some ''Gb''" "accidental_map ''G#'' = Some ''Ab''"
  "accidental_map ''A#'' = Some ''Bb''"
  by (simp_all add: accidental_map_def)

lemma flat_spelling_index:
  assumes "j < 12"
  shows "get_note_index
           (if ty = ''dim7'' \<and> CHR ''b'' \<notin> set (first_spelling j)
                 \<and> CHR ''#'' \<in> set (first_spelling j)
            then (case accidental_map (first_spelling j) of
                    None \<Rightarrow> first_spelling j
                  | Some flat \<Rightarrow> flat)
            else first_spelling j) = Inr j"
  using below_twelve [OF assms]
  by (elim disjE)
     (simp_all add: first_spelling_values get_note_index_values accidental_map_values)

lemma seventh_intervals_values:
  "seventh_intervals ''maj7'' = Some 11" "seventh_intervals ''7'' = Some 10"
  "seventh_intervals ''m7'' = Some 10" "seventh_intervals ''dim7'' = Some 9"
  "seventh_intervals ''aug7'' = Some 10"
  by (simp_all add: seventh_intervals_def)

lemma seventh_kinds:
  assumes "(ty, k) \<in> set [(''maj7'', 11), (''7'', 10), (''m7'', 10), (''dim7'', 9),
                          (''aug7'', 10 :: nat)]"
  shows "seventh_intervals ty = Some k" and "k \<noteq> 0"
proof -
  from assms have "(ty, k) = (''maj7'', 11) \<or> (ty, k) = (''7'', 10) \<or> (ty, k) = (''m7'', 10)
      \<or> (ty, k) = (''dim7'', 9) \<or> (ty, k) = (''aug7'', 10)"
    by (simp only: list.set insert_iff empty_iff) blast
  then show "seventh_intervals ty = Some k" and "k \<noteq> 0"
    by (elim disjE; simp add: seventh_intervals_values)+
qed

lemma make_seventh_chord_Cons:
  assumes "seventh_intervals ty = Some k" and "k \<noteq> 0"
    and "raise_loop k r = (out, c)"
  shows "make_seventh_chord (r # rest) ty =
           (out, (r # rest) @
              [if ty = ''dim7'' \<and> CHR ''b'' \<notin> set c \<and> CHR ''#'' \<in> set c
               then (case accidental_map c of None \<Rightarrow> c | Some flat \<Rightarrow> flat)
               else c])"
  using assms by (simp add: make_seventh_chord_def)

text \<open>
  C9: for a chord whose first note is in the chromatic table and for each of the five
  kinds of seventh, with the distances 11, 10, 10, 9 and 10 that the table of the
  function gives them, the function appends exactly one note to the chord it was
  given, prints nothing, and the chromatic index of that note is the index of the
  first note plus the distance, modulo 12.
\<close>

theorem seventh_note_index:
  assumes "get_note_index r = Inr i"
    and "(ty, k) \<in> set [(''maj7'', 11), (''7'', 10), (''m7'', 10), (''dim7'', 9),
                          (''aug7'', 10)]"
  shows "seventh_intervals ty = Some k \<and>
         (\<exists>n. make_seventh_chord (r # rest) ty = ([], (r # rest) @ [n])
              \<and> get_note_index n = Inr ((i + k) mod 12))"
proof -
  note iv = seventh_kinds [OF assms(2)]
  from iv(2) obtain k' where k: "k = Suc k'"
    by (cases k) simp_all
  define c where "c = first_spelling ((i + k) mod 12)"
  have loop: "raise_loop k r = ([], c)"
    unfolding k c_def by (rule raise_loop_index [OF assms(1)])
  have idx: "get_note_index
           (if ty = ''dim7'' \<and> CHR ''b'' \<notin> set c \<and> CHR ''#'' \<in> set c
            then (case accidental_map c of None \<Rightarrow> c | Some flat \<Rightarrow> flat)
            else c) = Inr ((i + k) mod 12)"
    unfolding c_def by (rule flat_spelling_index) simp
  from make_seventh_chord_Cons [OF iv loop] idx iv(1) show ?thesis
    by (intro conjI exI) assumption+
qed

theorem seventh_note_index_witness:
  "get_note_index ''Bb'' = Inr 10
   \<and> (''dim7'', 9) \<in> set [(''maj7'', 11), (''7'', 10), (''m7'', 10), (''dim7'', 9),
                          (''aug7'', 10 :: nat)]
   \<and> seventh_intervals ''dim7'' = Some 9
   \<and> make_seventh_chord [''Bb'', ''C#'', ''E''] ''dim7''
       = ([], [''Bb'', ''C#'', ''E'', ''G''])
   \<and> get_note_index ''G'' = Inr ((10 + 9) mod 12)"
proof -
  have h1: "get_note_index ''Bb'' = Inr 10"
    by (rule get_note_index_values)
  have h2: "(''dim7'', 9) \<in> set [(''maj7'', 11), (''7'', 10), (''m7'', 10), (''dim7'', 9),
                          (''aug7'', 10 :: nat)]"
    by simp
  from seventh_note_index [OF h1 h2, of "[''C#'', ''E'']"]
  obtain n where n: "make_seventh_chord [''Bb'', ''C#'', ''E''] ''dim7''
                       = ([], [''Bb'', ''C#'', ''E''] @ [n])"
    and ix: "get_note_index n = Inr ((10 + 9) mod 12)"
    and iv: "seventh_intervals ''dim7'' = Some 9"
    by blast
  have "raise_loop 9 ''Bb'' = ([], ''G'')"
    by code_simp
  then have "make_seventh_chord [''Bb'', ''C#'', ''E''] ''dim7''
               = ([], [''Bb'', ''C#'', ''E'', ''G''])"
    by (simp add: make_seventh_chord_def seventh_intervals_values)
  with n have "n = ''G''"
    by simp
  with h1 h2 n ix iv show ?thesis
    by simp
qed

subsection \<open>Inversion\<close>

lemma rotate_loop_append:
  assumes "b \<in> set xs"
  shows "rotate_loop n (xs @ ys) b =
           Some (Inr (n + length (takeWhile (\<lambda>x. x \<noteq> b) xs),
                      dropWhile (\<lambda>x. x \<noteq> b) xs @ ys @ takeWhile (\<lambda>x. x \<noteq> b) xs))"
  using assms
proof (induction xs arbitrary: n ys)
  case Nil
  then show ?case by simp
next
  case (Cons x rest)
  show ?case
  proof (cases "x = b")
    case True
    then show ?thesis
      by (subst rotate_loop.simps) simp
  next
    case False
    with Cons.prems have mem: "b \<in> set rest"
      by simp
    have "rotate_loop n ((x # rest) @ ys) b = rotate_loop (Suc n) (rest @ (ys @ [x])) b"
      using False by (subst rotate_loop.simps) simp
    also have "\<dots> = Some (Inr (Suc n + length (takeWhile (\<lambda>x. x \<noteq> b) rest),
                      dropWhile (\<lambda>x. x \<noteq> b) rest @ (ys @ [x])
                        @ takeWhile (\<lambda>x. x \<noteq> b) rest))"
      by (rule Cons.IH [OF mem])
    finally show ?thesis
      using False by simp
  qed
qed

lemma rotate_loop_member:
  assumes "b \<in> set xs"
  shows "rotate_loop 0 xs b =
           Some (Inr (length (takeWhile (\<lambda>x. x \<noteq> b) xs),
                      rotate (length (takeWhile (\<lambda>x. x \<noteq> b) xs)) xs))"
proof -
  let ?pre = "takeWhile (\<lambda>x. x \<noteq> b) xs" and ?post = "dropWhile (\<lambda>x. x \<noteq> b) xs"
  have "rotate (length ?pre) (?pre @ ?post) = ?post @ ?pre"
    by (rule rotate_append)
  then have "rotate (length ?pre) xs = ?post @ ?pre"
    by simp
  with rotate_loop_append [OF assms, of 0 "[]"] show ?thesis
    by simp
qed

lemma takeWhile_member_less:
  assumes "b \<in> set xs"
  shows "length (takeWhile (\<lambda>x. x \<noteq> b) xs) < length xs"
  using assms by (induction xs) auto

lemma rotate_takeWhile_front:
  assumes "b \<in> set xs"
  shows "rotate (length (takeWhile (\<lambda>x. x \<noteq> b) xs)) xs ! 0 = b"
proof -
  let ?pre = "takeWhile (\<lambda>x. x \<noteq> b) xs" and ?post = "dropWhile (\<lambda>x. x \<noteq> b) xs"
  have "rotate (length ?pre) (?pre @ ?post) = ?post @ ?pre"
    by (rule rotate_append)
  then have r: "rotate (length ?pre) xs = ?post @ ?pre"
    by simp
  from assms have ne: "?post \<noteq> []"
    by (auto simp: dropWhile_eq_Nil_conv)
  then have "hd ?post = b"
    using hd_dropWhile [of "\<lambda>x. x \<noteq> b" xs] by simp
  with ne r show ?thesis
    by (cases ?post) simp_all
qed

lemma mset_rotate_list: "mset (rotate k xs) = mset xs"
proof -
  let ?n = "k mod length xs"
  have "mset (drop ?n xs @ take ?n xs) = mset (take ?n xs @ drop ?n xs)"
    by (simp only: mset_append add.commute)
  then show ?thesis
    by (simp add: rotate_drop_take)
qed

lemma inversion_run_rotates:
  assumes "bass_note \<noteq> []"
    and "b = (case enharmonic bass_note of
                None \<Rightarrow> bass_note
              | Some other \<Rightarrow> (if other \<in> set chord_notes then other else bass_note))"
    and "b \<in> set chord_notes"
  shows "inversion_run chord_notes bass_note =
           Some ([], Inr (length (takeWhile (\<lambda>x. x \<noteq> b) chord_notes),
                          rotate (length (takeWhile (\<lambda>x. x \<noteq> b) chord_notes)) chord_notes))"
proof (cases "enharmonic bass_note")
  case None
  with assms show ?thesis
    by (simp add: inversion_run_def rotate_loop_member)
next
  case (Some other)
  with assms show ?thesis
    by (cases "other \<in> set chord_notes")
       (simp_all add: inversion_run_def rotate_loop_member)
qed

lemma inversion_run_absent:
  assumes "bass_note \<noteq> []"
    and "bass_note \<notin> set chord_notes"
    and "\<forall>other. enharmonic bass_note = Some other \<longrightarrow> other \<notin> set chord_notes"
  shows "inversion_run chord_notes bass_note =
           Some ([Bass_not_found bass_note chord_notes], Inr (0, chord_notes))"
  using assms by (cases "enharmonic bass_note") (simp_all add: inversion_run_def)

lemma inversion_run_bounded:
  "\<exists>out k r. inversion_run chord_notes bass_note = Some (out, Inr (k, r))
       \<and> k \<le> length chord_notes - 1 \<and> r = rotate k chord_notes"
proof (cases "bass_note = []")
  case True
  then show ?thesis
    by (simp add: inversion_run_def)
next
  case False
  define b where "b = (case enharmonic bass_note of
                None \<Rightarrow> bass_note
              | Some other \<Rightarrow> (if other \<in> set chord_notes then other else bass_note))"
  show ?thesis
  proof (cases "b \<in> set chord_notes")
    case True
    from takeWhile_member_less [OF True]
    have "length (takeWhile (\<lambda>x. x \<noteq> b) chord_notes) \<le> length chord_notes - 1"
      by simp
    with inversion_run_rotates [OF False b_def True] show ?thesis
      by simp
  next
    case absent: False
    then have "bass_note \<notin> set chord_notes"
      and "\<forall>other. enharmonic bass_note = Some other \<longrightarrow> other \<notin> set chord_notes"
      by (auto simp: b_def split: option.splits if_splits)
    from inversion_run_absent [OF False this] show ?thesis
      by simp
  qed
qed

lemma inversion_by_bass_note_returns:
  "\<exists>out r. inversion_by_bass_note chord_notes bass_note = Some (out, Inr r)
       \<and> length r = length chord_notes"
proof -
  from inversion_run_bounded [of chord_notes bass_note]
  obtain out k r where "inversion_run chord_notes bass_note = Some (out, Inr (k, r))"
    and "r = rotate k chord_notes"
    by blast
  then show ?thesis
    by (simp add: inversion_by_bass_note_def)
qed

text \<open>
  C6: when a bass note is given (a non-empty name) and the bass note or its enharmonic
  equivalent is in the chord, the inversion prints nothing and returns a left rotation
  of the chord by fewer positions than the chord has notes; the rotation has the same
  multiset of names, and its first element is the note the function looked for: the
  enharmonic equivalent when that is in the chord, the bass note itself otherwise.
\<close>

theorem inversion_rotates_to_bass:
  assumes "bass_note \<noteq> []"
    and "bass_note \<in> set chord_notes
         \<or> (\<exists>other. enharmonic bass_note = Some other \<and> other \<in> set chord_notes)"
  shows "\<exists>k r. inversion_by_bass_note chord_notes bass_note = Some ([], Inr r)
           \<and> k < length chord_notes \<and> r = rotate k chord_notes
           \<and> mset r = mset chord_notes
           \<and> r ! 0 = (case enharmonic bass_note of
                        None \<Rightarrow> bass_note
                      | Some other \<Rightarrow>
                          (if other \<in> set chord_notes then other else bass_note))"
proof -
  define b where "b = (case enharmonic bass_note of
                None \<Rightarrow> bass_note
              | Some other \<Rightarrow> (if other \<in> set chord_notes then other else bass_note))"
  define k where "k = length (takeWhile (\<lambda>x. x \<noteq> b) chord_notes)"
  from assms(2) have mem: "b \<in> set chord_notes"
    by (auto simp: b_def split: option.splits)
  from inversion_run_rotates [OF assms(1) b_def mem]
  have "inversion_by_bass_note chord_notes bass_note = Some ([], Inr (rotate k chord_notes))"
    by (simp add: inversion_by_bass_note_def k_def)
  moreover have "k < length chord_notes"
    unfolding k_def by (rule takeWhile_member_less [OF mem])
  moreover have "mset (rotate k chord_notes) = mset chord_notes"
    by (rule mset_rotate_list)
  moreover have "rotate k chord_notes ! 0 = b"
    unfolding k_def by (rule rotate_takeWhile_front [OF mem])
  ultimately show ?thesis
    unfolding b_def by blast
qed

theorem inversion_rotates_to_bass_witness:
  "''Db'' \<noteq> []
   \<and> (''Db'' \<in> set [''F#'', ''A'', ''C#'']
        \<or> (\<exists>other. enharmonic ''Db'' = Some other \<and> other \<in> set [''F#'', ''A'', ''C#'']))
   \<and> inversion_by_bass_note [''F#'', ''A'', ''C#''] ''Db''
        = Some ([], Inr [''C#'', ''F#'', ''A''])
   \<and> [''C#'', ''F#'', ''A''] = rotate 2 [''F#'', ''A'', ''C#'']
   \<and> mset [''C#'', ''F#'', ''A''] = mset [''F#'', ''A'', ''C#'']
   \<and> [''C#'', ''F#'', ''A''] ! 0 = ''C#''
   \<and> enharmonic ''Db'' = Some ''C#''"
proof -
  have e: "enharmonic ''Db'' = Some ''C#''"
    by (simp add: enharmonic_def)
  have h1: "''Db'' \<noteq> []"
    by simp
  have h2: "''Db'' \<in> set [''F#'', ''A'', ''C#'']
        \<or> (\<exists>other. enharmonic ''Db'' = Some other \<and> other \<in> set [''F#'', ''A'', ''C#''])"
    using e by simp
  from inversion_rotates_to_bass [OF h1 h2]
  obtain k r where run: "inversion_by_bass_note [''F#'', ''A'', ''C#''] ''Db'' = Some ([], Inr r)"
    and m: "mset r = mset [''F#'', ''A'', ''C#'']"
    by blast
  have "inversion_by_bass_note [''F#'', ''A'', ''C#''] ''Db''
          = Some ([], Inr [''C#'', ''F#'', ''A''])"
    by code_simp
  with run have r: "r = [''C#'', ''F#'', ''A'']"
    by simp
  from run r have found: "inversion_by_bass_note [''F#'', ''A'', ''C#''] ''Db''
          = Some ([], Inr [''C#'', ''F#'', ''A''])"
    by simp
  have rot: "[''C#'', ''F#'', ''A''] = rotate 2 [''F#'', ''A'', ''C#'']"
    by (simp add: numeral_2_eq_2)
  from m r have same: "mset [''C#'', ''F#'', ''A''] = mset [''F#'', ''A'', ''C#'']"
    by simp
  have front: "[''C#'', ''F#'', ''A''] ! 0 = ''C#''"
    by simp
  from h1 h2 found rot same front e show ?thesis
    by - (intro conjI; assumption)
qed

text \<open>
  C7: when a bass note is given and neither it nor its enharmonic equivalent is in the
  chord, the inversion returns the chord unchanged, prints the warning that the bass
  note was not found, and raises nothing. Building \<^verbatim>\<open>C/F#\<close> gives the triad C, E, G
  unchanged and the warning is among the printed lines (it names Gb, the spelling the
  parser substituted for F#).
\<close>

theorem inversion_bass_absent:
  assumes "bass_note \<noteq> []"
    and "bass_note \<notin> set chord_notes"
    and "\<forall>other. enharmonic bass_note = Some other \<longrightarrow> other \<notin> set chord_notes"
  shows "inversion_by_bass_note chord_notes bass_note
           = Some ([Bass_not_found bass_note chord_notes], Inr chord_notes)
         \<and> get_chord_from_string ''C/F#''
             = Some ([Parsed ''C'' ''C'' False False None (Some ''Gb''),
                      Base_chord ''C/F#'' [''C'', ''E'', ''G''],
                      Bass_not_found ''Gb'' [''C'', ''E'', ''G''],
                      After_inversion ''Gb'' [''C'', ''E'', ''G''],
                      Final_chord [''C'', ''E'', ''G'']],
                     Some [''C'', ''E'', ''G''])"
proof
  from inversion_run_absent [OF assms]
  show "inversion_by_bass_note chord_notes bass_note
           = Some ([Bass_not_found bass_note chord_notes], Inr chord_notes)"
    by (simp add: inversion_by_bass_note_def)
next
  show "get_chord_from_string ''C/F#''
             = Some ([Parsed ''C'' ''C'' False False None (Some ''Gb''),
                      Base_chord ''C/F#'' [''C'', ''E'', ''G''],
                      Bass_not_found ''Gb'' [''C'', ''E'', ''G''],
                      After_inversion ''Gb'' [''C'', ''E'', ''G''],
                      Final_chord [''C'', ''E'', ''G'']],
                     Some [''C'', ''E'', ''G''])"
    by code_simp
qed

theorem inversion_bass_absent_witness:
  "''Gb'' \<noteq> [] \<and> ''Gb'' \<notin> set [''C'', ''E'', ''G'']
   \<and> enharmonic ''Gb'' = Some ''F#'' \<and> ''F#'' \<notin> set [''C'', ''E'', ''G'']
   \<and> inversion_by_bass_note [''C'', ''E'', ''G''] ''Gb''
       = Some ([Bass_not_found ''Gb'' [''C'', ''E'', ''G'']], Inr [''C'', ''E'', ''G''])"
proof -
  have e: "enharmonic ''Gb'' = Some ''F#''"
    by (simp add: enharmonic_def)
  have h1: "''Gb'' \<noteq> []"
    by simp
  have h2: "''Gb'' \<notin> set [''C'', ''E'', ''G'']"
    by simp
  have h3: "\<forall>other. enharmonic ''Gb'' = Some other \<longrightarrow> other \<notin> set [''C'', ''E'', ''G'']"
    using e by simp
  have h4: "''F#'' \<notin> set [''C'', ''E'', ''G'']"
    by simp
  from inversion_bass_absent [OF h1 h2 h3]
  have "inversion_by_bass_note [''C'', ''E'', ''G''] ''Gb''
       = Some ([Bass_not_found ''Gb'' [''C'', ''E'', ''G'']], Inr [''C'', ''E'', ''G''])"
    by (rule conjunct1)
  with h1 h2 e h4 show ?thesis
    by - (intro conjI; assumption)
qed

text \<open>
  C10: for every non-empty chord and every bass note the inversion returns, without
  an exception, and the body of its rotation loop was executed at most
  \<open>length chord_notes - 1\<close> times.
\<close>

theorem inversion_loop_bounded:
  assumes "chord_notes \<noteq> []"
  shows "\<exists>out k r. inversion_run chord_notes bass_note = Some (out, Inr (k, r))
           \<and> k \<le> length chord_notes - 1
           \<and> inversion_by_bass_note chord_notes bass_note = Some (out, Inr r)"
proof -
  from inversion_run_bounded [of chord_notes bass_note]
  obtain out k r where run: "inversion_run chord_notes bass_note = Some (out, Inr (k, r))"
    and k: "k \<le> length chord_notes - 1"
    by blast
  from run have "inversion_by_bass_note chord_notes bass_note = Some (out, Inr r)"
    by (simp add: inversion_by_bass_note_def)
  with run k show ?thesis
    by blast
qed

theorem inversion_loop_bounded_witness:
  "[''D'', ''F'', ''A'', ''C''] \<noteq> []
   \<and> inversion_run [''D'', ''F'', ''A'', ''C''] ''C''
       = Some ([], Inr (3, [''C'', ''D'', ''F'', ''A'']))
   \<and> (3::nat) \<le> length [''D'', ''F'', ''A'', ''C''] - 1
   \<and> inversion_by_bass_note [''D'', ''F'', ''A'', ''C''] ''C''
       = Some ([], Inr [''C'', ''D'', ''F'', ''A''])"
proof -
  have h: "[''D'', ''F'', ''A'', ''C''] \<noteq> []"
    by simp
  have run: "inversion_run [''D'', ''F'', ''A'', ''C''] ''C''
       = Some ([], Inr (3, [''C'', ''D'', ''F'', ''A'']))"
    by code_simp
  from inversion_loop_bounded [OF h, of "''C''"]
  obtain out k r
    where run': "inversion_run [''D'', ''F'', ''A'', ''C''] ''C'' = Some (out, Inr (k, r))"
      and k: "k \<le> length [''D'', ''F'', ''A'', ''C''] - 1"
      and res: "inversion_by_bass_note [''D'', ''F'', ''A'', ''C''] ''C'' = Some (out, Inr r)"
    by blast
  from run run' have eqs: "out = []" "k = 3" "r = [''C'', ''D'', ''F'', ''A'']"
    by simp_all
  from k eqs have bound: "(3::nat) \<le> length [''D'', ''F'', ''A'', ''C''] - 1"
    by simp
  from res eqs have res': "inversion_by_bass_note [''D'', ''F'', ''A'', ''C''] ''C''
       = Some ([], Inr [''C'', ''D'', ''F'', ''A''])"
    by simp
  from h run bound res' show ?thesis
    by - (intro conjI; assumption)
qed

subsection \<open>Parsing and building one chord\<close>

lemma py_split_nonempty: "py_split c s \<noteq> []"
  by (induction s) (auto split: list.splits)

lemma length_py_split: "length (py_split c s) = Suc (count_list s c)"
  using py_split_nonempty [of c]
  by (induction s) (auto split: list.splits)

lemma count_list_pos: "x \<in> set xs \<Longrightarrow> 0 < count_list xs x"
  by (induction xs) auto

lemma handle_inversion_not_None: "handle_inversion bass chord_notes \<noteq> None"
proof (cases bass)
  case None
  then show ?thesis by (simp add: handle_inversion_def)
next
  case (Some b)
  from inversion_by_bass_note_returns [of chord_notes b]
  obtain out r where "inversion_by_bass_note chord_notes b = Some (out, Inr r)"
    by blast
  with Some show ?thesis
    by (simp add: handle_inversion_def)
qed

lemma get_chord_try_not_None: "get_chord_try chord_string \<noteq> None"
  by (simp add: get_chord_try_def handle_inversion_not_None
           split: prod.split sum.split option.split)

lemma get_chord_from_string_returns:
  "\<exists>out r. get_chord_from_string chord_string = Some (out, r)"
proof (cases "get_chord_try chord_string")
  case None
  with get_chord_try_not_None [of chord_string] show ?thesis by simp
next
  case (Some a)
  then show ?thesis
    by (cases a; cases "snd a") (simp_all add: get_chord_from_string_def)
qed

text \<open>
  C2 (amended): for every token with at most one \<^verbatim>\<open>/\<close> the parser returns a
  descriptor (root, minor flag, diminished flag, seventh, bass) and raises nothing; the
  one line it prints shows the chord part and the descriptor.
\<close>

theorem parse_returns_descriptor:
  assumes "count_list token CHR ''/'' \<le> 1"
  shows "\<exists>cs r mi di sv b.
           parse_chord_string token = ([Parsed cs r mi di sv b], Inr (r, mi, di, sv, b))"
proof (cases "CHR ''/'' \<in> set token")
  case False
  then show ?thesis
    by (auto simp: parse_chord_string_def Let_def)
next
  case True
  with assms have "count_list token CHR ''/'' = 1"
    using count_list_pos [of "CHR ''/''" token] by simp
  then have "length (py_split CHR ''/'' token) = 2"
    by (simp add: length_py_split)
  then obtain chord_part bass_part where "py_split CHR ''/'' token = [chord_part, bass_part]"
    by (auto simp: length_Suc_conv numeral_2_eq_2)
  with True show ?thesis
    by (auto simp: parse_chord_string_def Let_def)
qed

theorem parse_returns_descriptor_witness:
  "count_list ''F#m/C#'' CHR ''/'' \<le> 1
   \<and> parse_chord_string ''F#m/C#''
       = ([Parsed ''F#m'' ''F#'' True False None (Some ''Db'')],
          Inr (''F#'', True, False, None, Some ''Db''))"
proof -
  have h: "count_list ''F#m/C#'' CHR ''/'' \<le> 1"
    by simp
  from parse_returns_descriptor [OF h]
  obtain cs r mi di sv b where
    p: "parse_chord_string ''F#m/C#'' = ([Parsed cs r mi di sv b], Inr (r, mi, di, sv, b))"
    by blast
  have "parse_chord_string ''F#m/C#''
       = ([Parsed ''F#m'' ''F#'' True False None (Some ''Db'')],
          Inr (''F#'', True, False, None, Some ''Db''))"
    by code_simp
  with h p show ?thesis
    by simp
qed

text \<open>
  C2 (as the specification states it, refuted): the parser is not total. On a token with
  two \<^verbatim>\<open>/\<close> the split has three pieces and the assignment to two names raises
  ValueError; no descriptor is returned.
\<close>

theorem parse_two_slashes_counterexample:
  "parse_chord_string ''C/E/G'' = ([], Inl ValueError)"
  by code_simp

text \<open>
  C8: parsing \<^verbatim>\<open>Dm7/F\<close> gives root D, minor, not diminished, seventh
  \<^verbatim>\<open>m7\<close> and bass F; building it gives the four notes F, A, C, D: the set
  \<open>{D, F, A, C}\<close> with F first.
\<close>

theorem parse_and_build_Dm7_F:
  "parse_chord_string ''Dm7/F''
     = ([Parsed ''Dm7'' ''D'' True False (Some ''m7'') (Some ''F'')],
        Inr (''D'', True, False, Some ''m7'', Some ''F''))
   \<and> map_option snd (get_chord_from_string ''Dm7/F'')
       = Some (Some [''F'', ''A'', ''C'', ''D''])
   \<and> length [''F'', ''A'', ''C'', ''D''] = 4
   \<and> set [''F'', ''A'', ''C'', ''D''] = {''D'', ''F'', ''A'', ''C''}
   \<and> [''F'', ''A'', ''C'', ''D''] ! 0 = ''F''"
proof (intro conjI)
  show "parse_chord_string ''Dm7/F''
     = ([Parsed ''Dm7'' ''D'' True False (Some ''m7'') (Some ''F'')],
        Inr (''D'', True, False, Some ''m7'', Some ''F''))"
    by code_simp
  show "map_option snd (get_chord_from_string ''Dm7/F'')
       = Some (Some [''F'', ''A'', ''C'', ''D''])"
    by code_simp
  show "set [''F'', ''A'', ''C'', ''D''] = {''D'', ''F'', ''A'', ''C''}"
    by auto
qed simp_all


subsection \<open>The progression and the bass line\<close>

lemma m21_notes_loop_accepted:
  assumes "\<forall>n \<in> set ns. mk (chord_note_text n octave) \<noteq> None"
  shows "m21_notes_loop mk ns octave duration acc =
           Inr (acc @ List.map_filter
                  (\<lambda>n. map_option (\<lambda>m21_note. Note m21_note duration)
                          (mk (chord_note_text n octave))) ns)"
  using assms
proof (induction ns arbitrary: acc)
  case Nil
  show ?case
    by simp
next
  case (Cons n rest)
  from Cons.prems obtain obj where obj: "mk (chord_note_text n octave) = Some obj"
    by auto
  from Cons.prems have "\<forall>n \<in> set rest. mk (chord_note_text n octave) \<noteq> None"
    by simp
  from Cons.IH [OF this, of "acc @ [Note obj duration]"] obj show ?case
    by simp
qed

lemma length_map_filter_le: "length (List.map_filter f xs) \<le> length xs"
  by (induction xs) (auto split: option.splits)

lemma chord_step_accepted:
  assumes g: "get_chord_from_string chord_name = Some (out1, r)"
    and acc: "\<forall>out ns. get_chord_from_string chord_name = Some (out, Some ns) \<longrightarrow>
                (\<forall>n \<in> set ns. mk (chord_note_text n octave) \<noteq> None)"
  shows "(case r of
            None \<Rightarrow> Inr stream
          | Some ns \<Rightarrow>
              (if ns = [] then Inr stream
               else (case create_music21_chord mk ns octave duration of
                       Inl e \<Rightarrow> Inl e
                     | Inr None \<Rightarrow> Inr stream
                     | Inr (Some chord_obj) \<Rightarrow> Inr (stream @ [chord_obj]))))
         = Inr (case built_chord mk chord_name octave duration of
                  None \<Rightarrow> stream
                | Some chord_obj \<Rightarrow> stream @ [chord_obj])"
proof (cases r)
  case None
  with g show ?thesis
    by (simp add: built_chord_def)
next
  case (Some ns)
  show ?thesis
  proof (cases "ns = []")
    case True
    with g Some show ?thesis
      by (simp add: built_chord_def)
  next
    case False
    from acc g Some have "\<forall>n \<in> set ns. mk (chord_note_text n octave) \<noteq> None"
      by simp
    from m21_notes_loop_accepted [OF this, of duration "[]"] g Some False show ?thesis
      by (simp add: built_chord_def create_music21_chord_def)
  qed
qed

lemma chord_loop_map_filter:
  assumes "\<forall>t \<in> set names. \<forall>out ns. get_chord_from_string t = Some (out, Some ns) \<longrightarrow>
             (\<forall>n \<in> set ns. mk (chord_note_text n octave) \<noteq> None)"
  shows "\<exists>out. chord_loop mk names octave duration stream =
           Some (out, Inr (stream @ List.map_filter
                             (\<lambda>t. built_chord mk t octave duration) names))"
  using assms
proof (induction names arbitrary: stream)
  case Nil
  show ?case
    by simp
next
  case (Cons chord_name rest)
  from get_chord_from_string_returns [of chord_name]
  obtain out1 r where g: "get_chord_from_string chord_name = Some (out1, r)"
    by blast
  define stream' where "stream' = (case built_chord mk chord_name octave duration of
                                     None \<Rightarrow> stream
                                   | Some chord_obj \<Rightarrow> stream @ [chord_obj])"
  from Cons.prems
  have here: "\<forall>out ns. get_chord_from_string chord_name = Some (out, Some ns) \<longrightarrow>
                (\<forall>n \<in> set ns. mk (chord_note_text n octave) \<noteq> None)"
    and later: "\<forall>t \<in> set rest. \<forall>out ns. get_chord_from_string t = Some (out, Some ns) \<longrightarrow>
             (\<forall>n \<in> set ns. mk (chord_note_text n octave) \<noteq> None)"
    by simp_all
  from Cons.IH [OF later, of stream']
  obtain out2 where rest: "chord_loop mk rest octave duration stream' =
      Some (out2, Inr (stream' @ List.map_filter (\<lambda>t. built_chord mk t octave duration) rest))"
    by blast
  note upd = chord_step_accepted [OF g here, of stream duration, folded stream'_def]
  have "chord_loop mk (chord_name # rest) octave duration stream =
          (case chord_loop mk rest octave duration stream' of
             None \<Rightarrow> None
           | Some (out2, final) \<Rightarrow> Some (out1 @ out2, final))"
    by (simp only: chord_loop.simps g option.case prod.case upd sum.case)
  with rest have step: "chord_loop mk (chord_name # rest) octave duration stream =
      Some (out1 @ out2,
            Inr (stream' @ List.map_filter (\<lambda>t. built_chord mk t octave duration) rest))"
    by simp
  have "stream' @ List.map_filter (\<lambda>t. built_chord mk t octave duration) rest =
        stream @ List.map_filter (\<lambda>t. built_chord mk t octave duration) (chord_name # rest)"
    by (cases "built_chord mk chord_name octave duration")
       (simp_all add: stream'_def)
  with step show ?case
    by simp
qed

lemma bass_loop_accepted:
  assumes "\<forall>b \<in> set names. mk (bass_note_text b octave) \<noteq> None"
  shows "\<exists>made. bass_loop mk names octave duration stream = Inr (stream @ made)
           \<and> length made = length names"
  using assms
proof (induction names arbitrary: stream)
  case Nil
  show ?case by simp
next
  case (Cons b rest)
  from Cons.prems obtain obj where obj: "mk (bass_note_text b octave) = Some obj"
    by auto
  from Cons.prems have "\<forall>b \<in> set rest. mk (bass_note_text b octave) \<noteq> None"
    by simp
  from Cons.IH [OF this, of "stream @ [Note obj duration]"]
  obtain made where "bass_loop mk rest octave duration (stream @ [Note obj duration])
                        = Inr ((stream @ [Note obj duration]) @ made)"
    and "length made = length rest"
    by blast
  with obj have "bass_loop mk (b # rest) octave duration stream
                   = Inr (stream @ (Note obj duration # made))
                 \<and> length (Note obj duration # made) = length (b # rest)"
    by (simp add: create_music21_note_def)
  then show ?case
    by blast
qed

lemma accepted_chord:
  assumes "map_option snd (get_chord_from_string t) = Some r"
    and "case r of
           None \<Rightarrow> True
         | Some ns \<Rightarrow> list_all (\<lambda>n. mk (chord_note_text n octave) \<noteq> None) ns"
  shows "\<forall>out ns. get_chord_from_string t = Some (out, Some ns) \<longrightarrow>
           (\<forall>n \<in> set ns. mk (chord_note_text n octave) \<noteq> None)"
  using assms by (auto simp: list_all_iff)

lemma built_chord_eval:
  assumes "map_option snd (get_chord_from_string t) = Some r"
  shows "built_chord mk t octave duration =
           (case r of
              None \<Rightarrow> None
            | Some ns \<Rightarrow>
                (if ns = [] then None
                 else Some (Chord (List.map_filter
                        (\<lambda>n. map_option (\<lambda>m21_note. Note m21_note duration)
                                (mk (chord_note_text n octave))) ns))))"
  using assms by (auto simp: built_chord_def split: option.splits)

text \<open>
  C3 (as the specification states it, refuted): the progression \<^verbatim>\<open>C, X, G\<close> has
  three chord tokens; no chord is built for X (its root is unknown), and the stream
  built from the progression has two chords. The note constructor here is the one of
  the closed examples; the names it is given are C4, E4, G4, B4 and D4.
\<close>

theorem progression_skips_failed_counterexample:
  "length (names_of (Text ''C, X, G'')) = 3
   \<and> map (\<lambda>t. map_option snd (get_chord_from_string t)) (names_of (Text ''C, X, G''))
       = [Some (Some [''C'', ''E'', ''G'']), Some None, Some (Some [''G'', ''B'', ''D''])]
   \<and> map_option snd (create_chord_progression plain_note (Text ''C, X, G'') 4 (1::nat))
       = Some (Inr [Chord [Note ''C4'' 1, Note ''E4'' 1, Note ''G4'' 1],
                    Chord [Note ''G4'' 1, Note ''B4'' 1, Note ''D4'' 1]])"
proof (intro conjI)
  show "length (names_of (Text ''C, X, G'')) = 3"
    by code_simp
  show "map (\<lambda>t. map_option snd (get_chord_from_string t)) (names_of (Text ''C, X, G''))
       = [Some (Some [''C'', ''E'', ''G'']), Some None, Some (Some [''G'', ''B'', ''D''])]"
    by code_simp
  show "map_option snd (create_chord_progression plain_note (Text ''C, X, G'') 4 (1::nat))
       = Some (Inr [Chord [Note ''C4'' 1, Note ''E4'' 1, Note ''G4'' 1],
                    Chord [Note ''G4'' 1, Note ''B4'' 1, Note ''D4'' 1]])"
    by code_simp
qed

text \<open>
  C3 (amended): when the note constructor of the library accepts the name of every
  note of every chord built from the tokens (at the given octave), the stream built
  from a progression holds, in the order of the chord tokens, exactly one chord for
  each token from which a chord is built; a token from which no chord is built (unknown
  root, exception in parsing or building) is left out, and the tokens after it are
  still processed. So the stream is never longer than the list of tokens.
\<close>

theorem progression_built_chords_in_order:
  assumes "\<forall>t \<in> set (names_of progression).
             \<forall>out ns. get_chord_from_string t = Some (out, Some ns) \<longrightarrow>
               (\<forall>n \<in> set ns. mk (chord_note_text n octave) \<noteq> None)"
  shows "\<exists>out. create_chord_progression mk progression octave duration =
           Some (out, Inr (List.map_filter (\<lambda>t. built_chord mk t octave duration)
                             (names_of progression)))
         \<and> length (List.map_filter (\<lambda>t. built_chord mk t octave duration)
                     (names_of progression)) \<le> length (names_of progression)"
  using chord_loop_map_filter [OF assms, of duration "[]"]
  by (simp add: create_chord_progression_def length_map_filter_le)

theorem progression_built_chords_in_order_witness:
  "names_of (Text ''Dm7/F, H, C'') = [''Dm7/F'', ''H'', ''C'']
   \<and> map_option snd (create_chord_progression plain_note (Text ''Dm7/F, H, C'') 4 (1::nat))
       = Some (Inr [Chord [Note ''F4'' 1, Note ''A4'' 1, Note ''C4'' 1, Note ''D4'' 1],
                    Chord [Note ''C4'' 1, Note ''E4'' 1, Note ''G4'' 1]])
   \<and> List.map_filter (\<lambda>t. built_chord plain_note t 4 (1::nat)) [''Dm7/F'', ''H'', ''C'']
       = [Chord [Note ''F4'' 1, Note ''A4'' 1, Note ''C4'' 1, Note ''D4'' 1],
          Chord [Note ''C4'' 1, Note ''E4'' 1, Note ''G4'' 1]]"
proof -
  have names: "names_of (Text ''Dm7/F, H, C'') = [''Dm7/F'', ''H'', ''C'']"
    by code_simp
  have g1: "map_option snd (get_chord_from_string ''Dm7/F'')
              = Some (Some [''F'', ''A'', ''C'', ''D''])"
    by code_simp
  have g2: "map_option snd (get_chord_from_string ''H'') = Some None"
    by code_simp
  have g3: "map_option snd (get_chord_from_string ''C'') = Some (Some [''C'', ''E'', ''G''])"
    by code_simp
  have a1: "case Some [''F'', ''A'', ''C'', ''D''] of
              None \<Rightarrow> True
            | Some ns \<Rightarrow> list_all (\<lambda>n. plain_note (chord_note_text n 4) \<noteq> None) ns"
    by code_simp
  have a3: "case Some [''C'', ''E'', ''G''] of
              None \<Rightarrow> True
            | Some ns \<Rightarrow> list_all (\<lambda>n. plain_note (chord_note_text n 4) \<noteq> None) ns"
    by code_simp
  have h: "\<forall>t \<in> set (names_of (Text ''Dm7/F, H, C'')).
             \<forall>out ns. get_chord_from_string t = Some (out, Some ns) \<longrightarrow>
               (\<forall>n \<in> set ns. plain_note (chord_note_text n 4) \<noteq> None)"
    unfolding names
    using accepted_chord [OF g1 a1] accepted_chord [OF g2, of plain_note 4]
      accepted_chord [OF g3 a3]
    by simp
  from progression_built_chords_in_order [OF h, of "1::nat"]
  obtain out where run: "create_chord_progression plain_note (Text ''Dm7/F, H, C'') 4 (1::nat)
      = Some (out, Inr (List.map_filter (\<lambda>t. built_chord plain_note t 4 (1::nat))
                          (names_of (Text ''Dm7/F, H, C''))))"
    by blast
  have built: "List.map_filter (\<lambda>t. built_chord plain_note t 4 (1::nat))
                 [''Dm7/F'', ''H'', ''C'']
       = [Chord [Note ''F4'' 1, Note ''A4'' 1, Note ''C4'' 1, Note ''D4'' 1],
          Chord [Note ''C4'' 1, Note ''E4'' 1, Note ''G4'' 1]]"
    by code_simp
  from run [unfolded names built] have "map_option snd
      (create_chord_progression plain_note (Text ''Dm7/F, H, C'') 4 (1::nat))
       = Some (Inr [Chord [Note ''F4'' 1, Note ''A4'' 1, Note ''C4'' 1, Note ''D4'' 1],
                    Chord [Note ''C4'' 1, Note ''E4'' 1, Note ''G4'' 1]])"
    by (simp only: option.map snd_conv)
  with names built show ?thesis
    by - (intro conjI; assumption)
qed

text \<open>
  C1 (as the specification states it, refuted): the progression \<^verbatim>\<open>C, X\<close> has two
  chord tokens and the bass line \<^verbatim>\<open>C\<close> has one bass token, yet no length mismatch
  is reported: X builds no chord, the two streams have one element each, and the
  score is written. The note constructor here is the one of the closed examples; the
  names it is given are C4, E4, G4 and C2.
\<close>

theorem mismatch_token_counts_counterexample:
  "length (names_of (Text ''C, X'')) \<noteq> length (names_of (Text ''C''))
   \<and> map (\<lambda>t. map_option snd (get_chord_from_string t)) (names_of (Text ''C, X''))
       = [Some (Some [''C'', ''E'', ''G'']), Some None]
   \<and> map_option snd
         (export_to_midi plain_note (Text ''C, X'') ''out.mid'' (Some (Text ''C'')) 4 2
            (1::nat))
       = Some (Inr (Saved_with_bass [Chord [Note ''C4'' 1, Note ''E4'' 1, Note ''G4'' 1]]
                      [Note ''C2'' 1]))"
proof (intro conjI)
  show "length (names_of (Text ''C, X'')) \<noteq> length (names_of (Text ''C''))"
    by code_simp
  show "map (\<lambda>t. map_option snd (get_chord_from_string t)) (names_of (Text ''C, X''))
       = [Some (Some [''C'', ''E'', ''G'']), Some None]"
    by code_simp
  show "map_option snd
         (export_to_midi plain_note (Text ''C, X'') ''out.mid'' (Some (Text ''C'')) 4 2
            (1::nat))
       = Some (Inr (Saved_with_bass [Chord [Note ''C4'' 1, Note ''E4'' 1, Note ''G4'' 1]]
                      [Note ''C2'' 1]))"
    by code_simp
qed

text \<open>
  C1 (amended): for a progression text and a non-empty bass text, when the note
  constructor of the library accepts the name of every note of the chords built and of
  every bass token (at the given octaves), the export returns without an exception,
  and its result is the length mismatch (and no score) if and only if the number of
  chord tokens from which a chord is built differs from the number of bass tokens.
\<close>

theorem mismatch_iff_built_chords_differ:
  assumes "bass_text \<noteq> []"
    and "\<forall>t \<in> set (names_of (Text progression_text)).
           \<forall>out ns. get_chord_from_string t = Some (out, Some ns) \<longrightarrow>
             (\<forall>n \<in> set ns. mk (chord_note_text n chord_octave) \<noteq> None)"
    and "\<forall>b \<in> set (names_of (Text bass_text)). mk (bass_note_text b bass_octave) \<noteq> None"
  shows "\<exists>out r.
           export_to_midi mk (Text progression_text) filename (Some (Text bass_text))
             chord_octave bass_octave duration = Some (out, Inr r)
           \<and> ((\<exists>n m. r = Length_mismatch n m) \<longleftrightarrow>
                length (List.map_filter (\<lambda>t. built_chord mk t chord_octave duration)
                          (names_of (Text progression_text)))
                  \<noteq> length (names_of (Text bass_text)))"
proof -
  define chords where
    "chords = List.map_filter (\<lambda>t. built_chord mk t chord_octave duration)
                (names_of (Text progression_text))"
  from chord_loop_map_filter [OF assms(2), of duration "[]"]
  obtain out where
    c: "create_chord_progression mk (Text progression_text) chord_octave duration
          = Some (out, Inr chords)"
    by (auto simp: create_chord_progression_def chords_def)
  from bass_loop_accepted [OF assms(3), of duration "[]"]
  obtain basses where
    b: "create_bass_line mk (Text bass_text) bass_octave duration = Inr basses"
    and lb: "length basses = length (names_of (Text bass_text))"
    by (auto simp: create_bass_line_def)
  show ?thesis
  proof (cases "length chords = length (names_of (Text bass_text))")
    case True
    with assms(1) c b lb have "export_to_midi mk (Text progression_text) filename
        (Some (Text bass_text)) chord_octave bass_octave duration
          = Some (out, Inr (Saved_with_bass chords basses))"
      by (simp add: export_to_midi_def)
    with True show ?thesis
      unfolding chords_def by simp
  next
    case False
    with assms(1) c b lb have "export_to_midi mk (Text progression_text) filename
        (Some (Text bass_text)) chord_octave bass_octave duration
          = Some (out, Inr (Length_mismatch (length chords)
                              (length (names_of (Text bass_text)))))"
      by (simp add: export_to_midi_def)
    with False show ?thesis
      unfolding chords_def by simp
  qed
qed

theorem mismatch_iff_built_chords_differ_witness:
  "''C, F'' \<noteq> []
   \<and> names_of (Text ''C, F, G'') = [''C'', ''F'', ''G'']
   \<and> names_of (Text ''C, F'') = [''C'', ''F'']
   \<and> list_all (\<lambda>b. plain_note (bass_note_text b 2) \<noteq> None) [''C'', ''F'']
   \<and> map_option snd
         (export_to_midi plain_note (Text ''C, F, G'') ''out.mid'' (Some (Text ''C, F''))
            4 2 (1::nat))
       = Some (Inr (Length_mismatch 3 2))
   \<and> length (List.map_filter (\<lambda>t. built_chord plain_note t 4 (1::nat))
                (names_of (Text ''C, F, G''))) = 3
   \<and> length (names_of (Text ''C, F'')) = 2"
proof -
  have h1: "''C, F'' \<noteq> []"
    by simp
  have names: "names_of (Text ''C, F, G'') = [''C'', ''F'', ''G'']"
    by code_simp
  have bnames: "names_of (Text ''C, F'') = [''C'', ''F'']"
    by code_simp
  have g1: "map_option snd (get_chord_from_string ''C'') = Some (Some [''C'', ''E'', ''G''])"
    by code_simp
  have g2: "map_option snd (get_chord_from_string ''F'') = Some (Some [''F'', ''A'', ''C''])"
    by code_simp
  have g3: "map_option snd (get_chord_from_string ''G'') = Some (Some [''G'', ''B'', ''D''])"
    by code_simp
  have a1: "case Some [''C'', ''E'', ''G''] of
              None \<Rightarrow> True
            | Some ns \<Rightarrow> list_all (\<lambda>n. plain_note (chord_note_text n 4) \<noteq> None) ns"
    by code_simp
  have a2: "case Some [''F'', ''A'', ''C''] of
              None \<Rightarrow> True
            | Some ns \<Rightarrow> list_all (\<lambda>n. plain_note (chord_note_text n 4) \<noteq> None) ns"
    by code_simp
  have a3: "case Some [''G'', ''B'', ''D''] of
              None \<Rightarrow> True
            | Some ns \<Rightarrow> list_all (\<lambda>n. plain_note (chord_note_text n 4) \<noteq> None) ns"
    by code_simp
  have h2: "\<forall>t \<in> set (names_of (Text ''C, F, G'')).
             \<forall>out ns. get_chord_from_string t = Some (out, Some ns) \<longrightarrow>
               (\<forall>n \<in> set ns. plain_note (chord_note_text n 4) \<noteq> None)"
    unfolding names
    using accepted_chord [OF g1 a1] accepted_chord [OF g2 a2] accepted_chord [OF g3 a3]
    by simp
  have acc: "list_all (\<lambda>b. plain_note (bass_note_text b 2) \<noteq> None) [''C'', ''F'']"
    by code_simp
  then have h3: "\<forall>b \<in> set (names_of (Text ''C, F'')).
                   plain_note (bass_note_text b 2) \<noteq> None"
    unfolding bnames by (simp only: list_all_iff)
  from mismatch_iff_built_chords_differ [OF h1 h2 h3, of "''out.mid''" "1::nat"]
  obtain out r where
    e: "export_to_midi plain_note (Text ''C, F, G'') ''out.mid'' (Some (Text ''C, F''))
          4 2 (1::nat) = Some (out, Inr r)"
    and iff: "(\<exists>n m. r = Length_mismatch n m) \<longleftrightarrow>
                length (List.map_filter (\<lambda>t. built_chord plain_note t 4 (1::nat))
                          (names_of (Text ''C, F, G'')))
                  \<noteq> length (names_of (Text ''C, F''))"
    by blast
  have run: "map_option snd
         (export_to_midi plain_note (Text ''C, F, G'') ''out.mid'' (Some (Text ''C, F''))
            4 2 (1::nat))
       = Some (Inr (Length_mismatch 3 2))"
    by code_simp
  with e have r: "r = Length_mismatch 3 2"
    by simp
  from e r have found: "map_option snd
         (export_to_midi plain_note (Text ''C, F, G'') ''out.mid'' (Some (Text ''C, F''))
            4 2 (1::nat))
       = Some (Inr (Length_mismatch 3 2))"
    by simp
  have nc: "length (List.map_filter (\<lambda>t. built_chord plain_note t 4 (1::nat))
                (names_of (Text ''C, F, G''))) = 3"
    by code_simp
  have nb: "length (names_of (Text ''C, F'')) = 2"
    by (simp only: bnames) simp
  from h1 names bnames acc found nc nb show ?thesis
    by - (intro conjI; assumption)
qed

subsection \<open>The example of the repository\<close>

lemma example_names:
  "names_of (Text ''F#m/C#, C#m, D, Fdim7/D, A/C#, Bbdim7'')
     = [''F#m/C#'', ''C#m'', ''D'', ''Fdim7/D'', ''A/C#'', ''Bbdim7'']"
  "names_of (Text ''C#, C#, D, D, C#, Bb'') = [''C#'', ''C#'', ''D'', ''D'', ''C#'', ''Bb'']"
  by code_simp+

lemma example_chords:
  "map_option snd (get_chord_from_string ''F#m/C#'') = Some (Some [''C#'', ''F#'', ''A''])"
  "map_option snd (get_chord_from_string ''C#m'') = Some (Some [''C#'', ''E'', ''G#''])"
  "map_option snd (get_chord_from_string ''D'') = Some (Some [''D'', ''F#'', ''A''])"
  "map_option snd (get_chord_from_string ''Fdim7/D'')
     = Some (Some [''D'', ''F'', ''G#'', ''B''])"
  "map_option snd (get_chord_from_string ''A/C#'') = Some (Some [''C#'', ''E'', ''A''])"
  "map_option snd (get_chord_from_string ''Bbdim7'')
     = Some (Some [''Bb'', ''C#'', ''E'', ''G''])"
  by code_simp+

lemma example_note_texts:
  "chord_note_text ''C#'' 4 = ''Db4''" "chord_note_text ''F#'' 4 = ''Gb4''"
  "chord_note_text ''A'' 4 = ''A4''" "chord_note_text ''E'' 4 = ''E4''"
  "chord_note_text ''G#'' 4 = ''Ab4''" "chord_note_text ''D'' 4 = ''D4''"
  "chord_note_text ''F'' 4 = ''F4''" "chord_note_text ''B'' 4 = ''B4''"
  "chord_note_text ''Bb'' 4 = ''Bb4''" "chord_note_text ''G'' 4 = ''G4''"
  "bass_note_text ''C#'' 2 = ''Db2''" "bass_note_text ''D'' 2 = ''D2''"
  "bass_note_text ''Bb'' 2 = ''Bb2''"
  by code_simp+

text \<open>
  C5: the progression \<^verbatim>\<open>F#m/C#, C#m, D, Fdim7/D, A/C#, Bbdim7\<close> with the bass line
  \<^verbatim>\<open>C#, C#, D, D, C#, Bb\<close>, at the octaves 4 and 2, builds six chords in the order
  of the tokens. For every note constructor that accepts the thirteen names the
  export gives it here (\<open>obj s\<close> is the object it returns for the name \<open>s\<close>), the
  result is the score with these six chords (sharps respelled as flats) paired with
  the six bass notes, and no length mismatch. The first note of each of the three
  slash chords has the pitch class of the bass note the token asks for.
\<close>

theorem example_progression_with_bass:
  assumes "\<forall>s \<in> set [''Db4'', ''Gb4'', ''A4'', ''E4'', ''Ab4'', ''D4'', ''F4'', ''B4'',
                        ''Bb4'', ''G4'', ''Db2'', ''D2'', ''Bb2'']. mk s = Some (obj s)"
  shows "map (\<lambda>t. map_option snd (get_chord_from_string t))
       (names_of (Text ''F#m/C#, C#m, D, Fdim7/D, A/C#, Bbdim7''))
     = [Some (Some [''C#'', ''F#'', ''A'']), Some (Some [''C#'', ''E'', ''G#'']),
        Some (Some [''D'', ''F#'', ''A'']), Some (Some [''D'', ''F'', ''G#'', ''B'']),
        Some (Some [''C#'', ''E'', ''A'']), Some (Some [''Bb'', ''C#'', ''E'', ''G''])]
   \<and> map_option snd
         (export_to_midi mk (Text ''F#m/C#, C#m, D, Fdim7/D, A/C#, Bbdim7'') ''meteor.mid''
            (Some (Text ''C#, C#, D, D, C#, Bb'')) 4 2 (2::nat))
       = Some (Inr (Saved_with_bass
                 [Chord [Note (obj ''Db4'') 2, Note (obj ''Gb4'') 2, Note (obj ''A4'') 2],
                  Chord [Note (obj ''Db4'') 2, Note (obj ''E4'') 2, Note (obj ''Ab4'') 2],
                  Chord [Note (obj ''D4'') 2, Note (obj ''Gb4'') 2, Note (obj ''A4'') 2],
                  Chord [Note (obj ''D4'') 2, Note (obj ''F4'') 2, Note (obj ''Ab4'') 2,
                         Note (obj ''B4'') 2],
                  Chord [Note (obj ''Db4'') 2, Note (obj ''E4'') 2, Note (obj ''A4'') 2],
                  Chord [Note (obj ''Bb4'') 2, Note (obj ''Db4'') 2, Note (obj ''E4'') 2,
                         Note (obj ''G4'') 2]]
                 [Note (obj ''Db2'') 2, Note (obj ''Db2'') 2, Note (obj ''D2'') 2,
                  Note (obj ''D2'') 2, Note (obj ''Db2'') 2, Note (obj ''Bb2'') 2]))
   \<and> map_option (\<lambda>(out, r). map_option (\<lambda>ns. get_note_index (ns ! 0)) r)
         (get_chord_from_string ''F#m/C#'') = Some (Some (get_note_index ''C#''))
   \<and> map_option (\<lambda>(out, r). map_option (\<lambda>ns. get_note_index (ns ! 0)) r)
         (get_chord_from_string ''Fdim7/D'') = Some (Some (get_note_index ''D''))
   \<and> map_option (\<lambda>(out, r). map_option (\<lambda>ns. get_note_index (ns ! 0)) r)
         (get_chord_from_string ''A/C#'') = Some (Some (get_note_index ''C#''))"
proof (intro conjI)
  show "map (\<lambda>t. map_option snd (get_chord_from_string t))
       (names_of (Text ''F#m/C#, C#m, D, Fdim7/D, A/C#, Bbdim7''))
     = [Some (Some [''C#'', ''F#'', ''A'']), Some (Some [''C#'', ''E'', ''G#'']),
        Some (Some [''D'', ''F#'', ''A'']), Some (Some [''D'', ''F'', ''G#'', ''B'']),
        Some (Some [''C#'', ''E'', ''A'']), Some (Some [''Bb'', ''C#'', ''E'', ''G''])]"
    by (simp only: example_names list.map example_chords)
  show "map_option (\<lambda>(out, r). map_option (\<lambda>ns. get_note_index (ns ! 0)) r)
         (get_chord_from_string ''F#m/C#'') = Some (Some (get_note_index ''C#''))"
    by code_simp
  show "map_option (\<lambda>(out, r). map_option (\<lambda>ns. get_note_index (ns ! 0)) r)
         (get_chord_from_string ''Fdim7/D'') = Some (Some (get_note_index ''D''))"
    by code_simp
  show "map_option (\<lambda>(out, r). map_option (\<lambda>ns. get_note_index (ns ! 0)) r)
         (get_chord_from_string ''A/C#'') = Some (Some (get_note_index ''C#''))"
    by code_simp
next
  from assms have mk:
    "mk ''Db4'' = Some (obj ''Db4'')" "mk ''Gb4'' = Some (obj ''Gb4'')"
    "mk ''A4'' = Some (obj ''A4'')" "mk ''E4'' = Some (obj ''E4'')"
    "mk ''Ab4'' = Some (obj ''Ab4'')" "mk ''D4'' = Some (obj ''D4'')"
    "mk ''F4'' = Some (obj ''F4'')" "mk ''B4'' = Some (obj ''B4'')"
    "mk ''Bb4'' = Some (obj ''Bb4'')" "mk ''G4'' = Some (obj ''G4'')"
    "mk ''Db2'' = Some (obj ''Db2'')" "mk ''D2'' = Some (obj ''D2'')"
    "mk ''Bb2'' = Some (obj ''Bb2'')"
    by simp_all
  define names where "names = [''F#m/C#'', ''C#m'', ''D'', ''Fdim7/D'', ''A/C#'', ''Bbdim7'']"
  define acc where "acc = (\<lambda>t. \<forall>out ns. get_chord_from_string t = Some (out, Some ns) \<longrightarrow>
                                 (\<forall>n \<in> set ns. mk (chord_note_text n 4) \<noteq> None))"
  have "acc ''F#m/C#''" "acc ''C#m''" "acc ''D''" "acc ''Fdim7/D''" "acc ''A/C#''"
    "acc ''Bbdim7''"
    unfolding acc_def
    by (rule accepted_chord [OF example_chords(1)], simp add: example_note_texts mk,
        rule accepted_chord [OF example_chords(2)], simp add: example_note_texts mk,
        rule accepted_chord [OF example_chords(3)], simp add: example_note_texts mk,
        rule accepted_chord [OF example_chords(4)], simp add: example_note_texts mk,
        rule accepted_chord [OF example_chords(5)], simp add: example_note_texts mk,
        rule accepted_chord [OF example_chords(6)], simp add: example_note_texts mk)
  then have "\<forall>t \<in> set names. acc t"
    by (simp add: names_def)
  then have accepted: "\<forall>t \<in> set names.
           \<forall>out ns. get_chord_from_string t = Some (out, Some ns) \<longrightarrow>
             (\<forall>n \<in> set ns. mk (chord_note_text n 4) \<noteq> None)"
    by (simp only: acc_def)
  from chord_loop_map_filter [OF accepted, of "2::nat" "[]"]
  obtain out where loop: "chord_loop mk names 4 (2::nat) [] =
      Some (out, Inr (List.map_filter (\<lambda>t. built_chord mk t 4 (2::nat)) names))"
    by auto
  have built: "List.map_filter (\<lambda>t. built_chord mk t 4 (2::nat)) names =
                 [Chord [Note (obj ''Db4'') 2, Note (obj ''Gb4'') 2, Note (obj ''A4'') 2],
                  Chord [Note (obj ''Db4'') 2, Note (obj ''E4'') 2, Note (obj ''Ab4'') 2],
                  Chord [Note (obj ''D4'') 2, Note (obj ''Gb4'') 2, Note (obj ''A4'') 2],
                  Chord [Note (obj ''D4'') 2, Note (obj ''F4'') 2, Note (obj ''Ab4'') 2,
                         Note (obj ''B4'') 2],
                  Chord [Note (obj ''Db4'') 2, Note (obj ''E4'') 2, Note (obj ''A4'') 2],
                  Chord [Note (obj ''Bb4'') 2, Note (obj ''Db4'') 2, Note (obj ''E4'') 2,
                         Note (obj ''G4'') 2]]"
    by (simp add: names_def built_chord_eval [OF example_chords(1)]
          built_chord_eval [OF example_chords(2)] built_chord_eval [OF example_chords(3)]
          built_chord_eval [OF example_chords(4)] built_chord_eval [OF example_chords(5)]
          built_chord_eval [OF example_chords(6)] example_note_texts mk)
  have chords: "create_chord_progression mk (Text ''F#m/C#, C#m, D, Fdim7/D, A/C#, Bbdim7'')
                  4 (2::nat)
      = Some (out, Inr
                [Chord [Note (obj ''Db4'') 2, Note (obj ''Gb4'') 2, Note (obj ''A4'') 2],
                  Chord [Note (obj ''Db4'') 2, Note (obj ''E4'') 2, Note (obj ''Ab4'') 2],
                  Chord [Note (obj ''D4'') 2, Note (obj ''Gb4'') 2, Note (obj ''A4'') 2],
                  Chord [Note (obj ''D4'') 2, Note (obj ''F4'') 2, Note (obj ''Ab4'') 2,
                         Note (obj ''B4'') 2],
                  Chord [Note (obj ''Db4'') 2, Note (obj ''E4'') 2, Note (obj ''A4'') 2],
                  Chord [Note (obj ''Bb4'') 2, Note (obj ''Db4'') 2, Note (obj ''E4'') 2,
                         Note (obj ''G4'') 2]])"
    using loop
    by (simp only: create_chord_progression_def example_names names_def [symmetric] built)
  have basses: "create_bass_line mk (Text ''C#, C#, D, D, C#, Bb'') 2 (2::nat)
      = Inr [Note (obj ''Db2'') 2, Note (obj ''Db2'') 2, Note (obj ''D2'') 2,
             Note (obj ''D2'') 2, Note (obj ''Db2'') 2, Note (obj ''Bb2'') 2]"
    by (simp only: create_bass_line_def example_names)
       (simp add: create_music21_note_def example_note_texts mk)
  show "map_option snd
         (export_to_midi mk (Text ''F#m/C#, C#m, D, Fdim7/D, A/C#, Bbdim7'') ''meteor.mid''
            (Some (Text ''C#, C#, D, D, C#, Bb'')) 4 2 (2::nat))
       = Some (Inr (Saved_with_bass
                 [Chord [Note (obj ''Db4'') 2, Note (obj ''Gb4'') 2, Note (obj ''A4'') 2],
                  Chord [Note (obj ''Db4'') 2, Note (obj ''E4'') 2, Note (obj ''Ab4'') 2],
                  Chord [Note (obj ''D4'') 2, Note (obj ''Gb4'') 2, Note (obj ''A4'') 2],
                  Chord [Note (obj ''D4'') 2, Note (obj ''F4'') 2, Note (obj ''Ab4'') 2,
                         Note (obj ''B4'') 2],
                  Chord [Note (obj ''Db4'') 2, Note (obj ''E4'') 2, Note (obj ''A4'') 2],
                  Chord [Note (obj ''Bb4'') 2, Note (obj ''Db4'') 2, Note (obj ''E4'') 2,
                         Note (obj ''G4'') 2]]
                 [Note (obj ''Db2'') 2, Note (obj ''Db2'') 2, Note (obj ''D2'') 2,
                  Note (obj ''D2'') 2, Note (obj ''Db2'') 2, Note (obj ''Bb2'') 2]))"
    by (simp add: export_to_midi_def chords basses)
qed

theorem example_progression_with_bass_witness:
  "list_all (\<lambda>s. plain_note s = Some s)
     [''Db4'', ''Gb4'', ''A4'', ''E4'', ''Ab4'', ''D4'', ''F4'', ''B4'', ''Bb4'', ''G4'',
      ''Db2'', ''D2'', ''Bb2'']
   \<and> map_option snd
         (export_to_midi plain_note (Text ''F#m/C#, C#m, D, Fdim7/D, A/C#, Bbdim7'')
            ''meteor.mid'' (Some (Text ''C#, C#, D, D, C#, Bb'')) 4 2 (2::nat))
       = Some (Inr (Saved_with_bass
                 [Chord [Note ''Db4'' 2, Note ''Gb4'' 2, Note ''A4'' 2],
                  Chord [Note ''Db4'' 2, Note ''E4'' 2, Note ''Ab4'' 2],
                  Chord [Note ''D4'' 2, Note ''Gb4'' 2, Note ''A4'' 2],
                  Chord [Note ''D4'' 2, Note ''F4'' 2, Note ''Ab4'' 2, Note ''B4'' 2],
                  Chord [Note ''Db4'' 2, Note ''E4'' 2, Note ''A4'' 2],
                  Chord [Note ''Bb4'' 2, Note ''Db4'' 2, Note ''E4'' 2, Note ''G4'' 2]]
                 [Note ''Db2'' 2, Note ''Db2'' 2, Note ''D2'' 2, Note ''D2'' 2,
                  Note ''Db2'' 2, Note ''Bb2'' 2]))"
proof -
  have acc: "list_all (\<lambda>s. plain_note s = Some s)
     [''Db4'', ''Gb4'', ''A4'', ''E4'', ''Ab4'', ''D4'', ''F4'', ''B4'', ''Bb4'', ''G4'',
      ''Db2'', ''D2'', ''Bb2'']"
    by code_simp
  then have h: "\<forall>s \<in> set [''Db4'', ''Gb4'', ''A4'', ''E4'', ''Ab4'', ''D4'', ''F4'', ''B4'',
                        ''Bb4'', ''G4'', ''Db2'', ''D2'', ''Bb2'']. plain_note s = Some s"
    by (simp only: list_all_iff)
  from example_progression_with_bass [OF h]
  have "map_option snd
         (export_to_midi plain_note (Text ''F#m/C#, C#m, D, Fdim7/D, A/C#, Bbdim7'')
            ''meteor.mid'' (Some (Text ''C#, C#, D, D, C#, Bb'')) 4 2 (2::nat))
       = Some (Inr (Saved_with_bass
                 [Chord [Note ''Db4'' 2, Note ''Gb4'' 2, Note ''A4'' 2],
                  Chord [Note ''Db4'' 2, Note ''E4'' 2, Note ''Ab4'' 2],
                  Chord [Note ''D4'' 2, Note ''Gb4'' 2, Note ''A4'' 2],
                  Chord [Note ''D4'' 2, Note ''F4'' 2, Note ''Ab4'' 2, Note ''B4'' 2],
                  Chord [Note ''Db4'' 2, Note ''E4'' 2, Note ''A4'' 2],
                  Chord [Note ''Bb4'' 2, Note ''Db4'' 2, Note ''E4'' 2, Note ''G4'' 2]]
                 [Note ''Db2'' 2, Note ''Db2'' 2, Note ''D2'' 2, Note ''D2'' 2,
                  Note ''Db2'' 2, Note ''Bb2'' 2]))"
    by (elim conjE)
  with acc show ?thesis
    by - (intro conjI; assumption)
qed

end
